theory Spec2Isabelle
  imports Complex_Main "HOL-Library.Multiset"
begin

section \<open>Numbers, errors and validation\<close>

text \<open>
  JavaScript numbers are modelled as real numbers. The only non-finite values the
  allocation code can produce from finite inputs come from a division by zero
  (\<open>NaN\<close> or \<open>\<plusminus>Infinity\<close>); such a result is the value \<open>None\<close> of
  \<open>real option\<close>, and every place where the source validates a number turns
  \<open>None\<close> into a validation failure. A method call on \<open>undefined\<close> is the
  error \<open>TypeError\<close>.
\<close>

datatype error = ValidationError | TypeError

text \<open>
  Modelled from the spec: \<open>validation.js\<close> and the data node's \<open>validateStat\<close>
  are not part of the available sources. The spec gives
  \<open>validateStat(value, label?, {aboveZero?})\<close>: it validates and returns the value,
  or signals a validation failure when the value is non-finite, or when
  \<open>aboveZero\<close> is requested and the value is not strictly positive.
\<close>

definition validateNumber :: "real option \<Rightarrow> bool \<Rightarrow> error + real" where
  "validateNumber num aboveZero =
     (case num of
        None \<Rightarrow> Inl ValidationError
      | Some v \<Rightarrow> if aboveZero \<and> v \<le> 0 then Inl ValidationError else Inr v)"

definition validateStat :: "real option \<Rightarrow> bool \<Rightarrow> error + real" where
  "validateStat num aboveZero = validateNumber num aboveZero"

text \<open>A failure aborts the run: the rest of a computation is skipped once an error is
  raised.\<close>

definition and_then :: "error + 'a \<Rightarrow> ('a \<Rightarrow> error + 'b) \<Rightarrow> error + 'b" where
  "and_then m f = (case m of Inl e \<Rightarrow> Inl e | Inr v \<Rightarrow> f v)"

text \<open>Division as JavaScript performs it on finite operands: a zero divisor gives a
  non-finite result.\<close>

definition js_div :: "real \<Rightarrow> real \<Rightarrow> real option" where
  "js_div a b = (if b = 0 then None else Some (a / b))"

section \<open>Line geometry\<close>

record coordinate =
  label :: string
  x1 :: real
  y1 :: real
  x2 :: real
  y2 :: real

text \<open>
  Modelled from the spec: \<open>line-coordinates.js\<close> is not part of the available
  sources. The spec describes a geometry primitive constructed from two endpoints
  that exposes \<open>length\<close> and \<open>pointAtLength(d)\<close>, the point at distance \<open>d\<close>
  from the first endpoint in the direction of the second. A line of length zero has
  no direction; the quotient is then non-finite and the model returns \<open>None\<close>.
\<close>

definition euclidean :: "real \<Rightarrow> real \<Rightarrow> real" where
  "euclidean dx dy = sqrt (dx * dx + dy * dy)"

definition line_length :: "coordinate \<Rightarrow> real" where
  "line_length c = euclidean (x2 c - x1 c) (y2 c - y1 c)"

definition pointAtLength :: "coordinate \<Rightarrow> real \<Rightarrow> (real \<times> real) option" where
  "pointAtLength c d =
     (case js_div d (line_length c) of
        None \<Rightarrow> None
      | Some ratio \<Rightarrow> Some (x1 c + ratio * (x2 c - x1 c), y1 c + ratio * (y2 c - y1 c)))"

section \<open>Layout data\<close>

record dataNode =
  node_id :: nat
  parentId :: nat
  children :: "nat list"

text \<open>
  A stem is consumed through \<open>getTotalStemLength(scale).combined\<close>,
  \<open>getScaled(scale).ownDiameter\<close>, \<open>getScaled(scale).ownBetween\<close>,
  \<open>ancestors.ids\<close> and \<open>leaves.ids\<close>. The scale is fixed during one allocation
  run, so the record holds the values these calls return.
\<close>

record stem =
  ancestors_ids :: "nat list"
  leaves_ids :: "nat list"
  totalStemLength_combined :: real
  ownDiameter :: real
  ownBetween :: real

text \<open>\<open>parent\<close> is the parent's layout node or \<open>null\<close>; the allocation reads only
  its stem, which the record holds.\<close>

record layoutNode =
  layoutNode_id :: nat
  node :: dataNode
  stem :: stem
  parent :: "stem option"

record layout =
  svgWidth :: real
  svgDistanceFromEdge :: real
  finalSvgHeight :: real
  order :: "nat list"

record position =
  units :: real
  offset :: "real option"
  pos_x :: real
  pos_y :: real

record SpaceBlock =
  block_node :: nat
  block_begin :: real
  block_end :: real
  center :: real

record LinearSpaceSegment =
  seg_label :: string
  line :: coordinate
  seg_begin :: real
  seg_end :: real
  blocks :: "SpaceBlock list"

text \<open>
  The maps of the class are JavaScript \<open>Map\<close>s, which iterate in insertion order:
  association lists. \<open>nodeToPosition\<close> is keyed by the node object; nodes are
  identified by their id. A position record is mutated in place: the model stores the
  changed record under the same key.
\<close>

record NodeAllocation =
  layout :: layout
  layoutNodes :: "(nat \<times> layoutNode) list"
  nodeToPosition :: "(nat \<times> position) list"
  leaves :: "(nat \<times> layoutNode) list"
  midPoints :: "(nat \<times> layoutNode) list"
  roots :: "(nat \<times> layoutNode) list"
  segments :: "LinearSpaceSegment list"
  total1DSpaceAvailable :: real

text \<open>\<open>Map.prototype.set\<close>: an existing key keeps its place and gets the new value, a
  new key is appended.\<close>

fun map_set :: "('k \<times> 'v) list \<Rightarrow> 'k \<Rightarrow> 'v \<Rightarrow> ('k \<times> 'v) list" where
  "map_set [] k v = [(k, v)]"
| "map_set ((k', v') # m) k v = (if k' = k then (k, v) # m else (k', v') # map_set m k v)"

definition map_get :: "('k \<times> 'v) list \<Rightarrow> 'k \<Rightarrow> 'v option" where
  "map_get m k = map_of m k"

definition map_values :: "('k \<times> 'v) list \<Rightarrow> 'v list" where
  "map_values m = map snd m"

section \<open>Construction: perimeter segments\<close>

definition new_LinearSpaceSegment :: "string \<Rightarrow> real \<Rightarrow> coordinate \<Rightarrow> LinearSpaceSegment" where
  "new_LinearSpaceSegment lbl b l =
     \<lparr>seg_label = lbl, line = l, seg_begin = b, seg_end = b + line_length l, blocks = []\<rparr>"

text \<open>
  The loop of \<open>initializeSegments\<close>, with the segments pushed so far and the running
  total. The source takes \<open>begin = 0\<close> for the coordinate that is \<open>coordinates[0]\<close> and
  the end of the last pushed segment otherwise; the generator returns distinct
  objects, so the first coordinate is the one met with no segment pushed yet.
\<close>

fun initializeSegments_loop ::
  "LinearSpaceSegment list \<Rightarrow> real \<Rightarrow> coordinate list \<Rightarrow> LinearSpaceSegment list \<times> real" where
  "initializeSegments_loop segs tot [] = (segs, tot)"
| "initializeSegments_loop segs tot (c # cs) =
     (let b = (if segs = [] then 0 else seg_end (last segs))
      in initializeSegments_loop (segs @ [new_LinearSpaceSegment (label c) b c])
           (tot + line_length c) cs)"

definition initializeSegments :: "coordinate list \<Rightarrow> LinearSpaceSegment list \<times> real" where
  "initializeSegments coordinates = initializeSegments_loop [] 0 coordinates"

definition largestRootDiameter :: "(nat \<times> layoutNode) list \<Rightarrow> real" where
  "largestRootDiameter rts =
     foldl (\<lambda>largest rootLayoutNode. max largest (ownDiameter (stem rootLayoutNode))) 0
       (map_values rts)"

definition topOffset :: "layout \<Rightarrow> (nat \<times> layoutNode) list \<Rightarrow> real" where
  "topOffset lay rts =
     svgDistanceFromEdge lay + max (finalSvgHeight lay * (2 / 10)) (largestRootDiameter rts)"

definition threeSided :: "layout \<Rightarrow> (nat \<times> layoutNode) list \<Rightarrow> error + coordinate list" where
  "threeSided lay rts =
     and_then (validateNumber (Some (topOffset lay rts)) False) (\<lambda>borders_top.
     and_then (validateNumber (Some (finalSvgHeight lay - svgDistanceFromEdge lay)) False)
       (\<lambda>borders_bottom.
     and_then (validateNumber (Some (svgDistanceFromEdge lay)) False) (\<lambda>borders_left.
     and_then (validateNumber (Some (svgWidth lay - svgDistanceFromEdge lay)) False)
       (\<lambda>borders_right.
     Inr [\<lparr>label = ''LHS'', x1 = borders_left, y1 = borders_top,
            x2 = borders_left, y2 = borders_bottom\<rparr>,
          \<lparr>label = ''BOT'', x1 = borders_left, y1 = borders_bottom,
            x2 = borders_right, y2 = borders_bottom\<rparr>,
          \<lparr>label = ''RHS'', x1 = borders_right, y1 = borders_bottom,
            x2 = borders_right, y2 = borders_top\<rparr>]))))"

text \<open>The constructor: positions, the split into leaves and midpoints, the roots, and
  the segments of the perimeter.\<close>

definition initial_position :: position where
  "initial_position = \<lparr>units = 0, offset = None, pos_x = 0, pos_y = 0\<rparr>"

fun categorize ::
  "(nat \<times> position) list \<times> (nat \<times> layoutNode) list \<times> (nat \<times> layoutNode) list
   \<Rightarrow> layoutNode list
   \<Rightarrow> (nat \<times> position) list \<times> (nat \<times> layoutNode) list \<times> (nat \<times> layoutNode) list" where
  "categorize acc [] = acc"
| "categorize (pos, lvs, mids) (lnode # lns) =
     (let n = node lnode;
          pos' = map_set pos (node_id n) initial_position
      in if children n \<noteq> []
         then categorize (pos', lvs, map_set mids (node_id n) lnode) lns
         else categorize (pos', map_set lvs (node_id n) lnode, mids) lns)"

fun collect_roots ::
  "(nat \<times> layoutNode) list \<Rightarrow> (nat \<times> layoutNode) list \<Rightarrow> layoutNode list
   \<Rightarrow> (nat \<times> layoutNode) list" where
  "collect_roots mids rts [] = rts"
| "collect_roots mids rts (midPoint # rest) =
     (if map_get mids (parentId (node midPoint)) = None
      then collect_roots mids (map_set rts (layoutNode_id midPoint) midPoint) rest
      else collect_roots mids rts rest)"

definition new_NodeAllocation :: "layout \<Rightarrow> (nat \<times> layoutNode) list \<Rightarrow> error + NodeAllocation" where
  "new_NodeAllocation lay lns =
     (case categorize ([], [], []) (map_values lns) of (pos, lvs, mids) \<Rightarrow>
      let rts = collect_roots mids [] (map_values mids) in
      and_then (threeSided lay rts) (\<lambda>coordinates.
        (case initializeSegments coordinates of (segs, tot) \<Rightarrow>
           Inr \<lparr>layout = lay, layoutNodes = lns, nodeToPosition = pos, leaves = lvs,
                midPoints = mids, roots = rts, segments = segs,
                total1DSpaceAvailable = tot\<rparr>)))"

section \<open>Loops that abort on the first failure\<close>

fun for_each :: "('s \<Rightarrow> 'a \<Rightarrow> error + 's) \<Rightarrow> 's \<Rightarrow> 'a list \<Rightarrow> error + 's" where
  "for_each f st [] = Inr st"
| "for_each f st (a # as) = (case f st a of Inl e \<Rightarrow> Inl e | Inr st' \<Rightarrow> for_each f st' as)"

section \<open>Phase 1: total stem lengths to units\<close>

text \<open>
  Clumps refer to each other (parent and children) and are mutated while the
  hierarchy is built. The model keeps them in the hierarchy levels, each level a map
  from the clump's node to the clump, the levels in a map from depth to level. A
  reference to a clump is the key of its node: the parent of a clump at depth \<open>d\<close> lives
  in level \<open>d - 1\<close>, its children in level \<open>d + 1\<close>. \<open>units\<close> and
  \<open>longestLeafLengthSum\<close> are \<open>undefined\<close> (\<open>None\<close>) until they are assigned.
\<close>

record Clump =
  clump_node :: nat
  parentClump :: "nat option"
  childClumps :: "nat list"
  longestLeafLength :: real
  clump_units :: "real option"

record HierarchyLevel =
  level_depth :: nat
  clumps :: "(nat \<times> Clump) list"
  longestLeafLengthSum :: "real option"

type_synonym hierarchyLevels = "(nat \<times> HierarchyLevel) list"

definition new_Clump :: "nat \<Rightarrow> nat option \<Rightarrow> real \<Rightarrow> Clump" where
  "new_Clump n parentKey longest =
     \<lparr>clump_node = n, parentClump = parentKey, childClumps = [], longestLeafLength = longest,
      clump_units = None\<rparr>"

definition new_HierarchyLevel :: "nat \<Rightarrow> HierarchyLevel" where
  "new_HierarchyLevel d = \<lparr>level_depth = d, clumps = [], longestLeafLengthSum = None\<rparr>"

text \<open>\<open>if (!hierarchyLevels.has(depth)) hierarchyLevels.set(depth, new HierarchyLevel(depth))\<close>\<close>

definition ensure_level :: "hierarchyLevels \<Rightarrow> nat \<Rightarrow> hierarchyLevels" where
  "ensure_level H d = (if map_get H d = None then map_set H d (new_HierarchyLevel d) else H)"

text \<open>\<open>hierarchyLevels.get(d).clumps.get(node)\<close>\<close>

definition lookup_clump :: "hierarchyLevels \<Rightarrow> nat \<Rightarrow> nat \<Rightarrow> Clump option" where
  "lookup_clump H d k = (case map_get H d of None \<Rightarrow> None | Some lv \<Rightarrow> map_get (clumps lv) k)"

text \<open>The lookup in \<open>hierarchyLevels.get(depth - 1)\<close>, which is \<open>undefined\<close> at depth 0.\<close>

definition previous_lookup :: "hierarchyLevels \<Rightarrow> nat \<Rightarrow> nat \<Rightarrow> Clump option" where
  "previous_lookup H d k = (if d = 0 then None else lookup_clump H (d - 1) k)"

text \<open>\<open>hierarchyLevels.get(d).clumps.set(node, clump)\<close>\<close>

definition put_clump :: "hierarchyLevels \<Rightarrow> nat \<Rightarrow> nat \<Rightarrow> Clump \<Rightarrow> hierarchyLevels" where
  "put_clump H d k c =
     (case map_get H d of
        None \<Rightarrow> H
      | Some lv \<Rightarrow> map_set H d (lv\<lparr>clumps := map_set (clumps lv) k c\<rparr>))"

text \<open>A mutation of the clump object stored for a node at a depth.\<close>

definition update_clump :: "hierarchyLevels \<Rightarrow> nat \<Rightarrow> nat \<Rightarrow> (Clump \<Rightarrow> Clump) \<Rightarrow> hierarchyLevels" where
  "update_clump H d k f =
     (case lookup_clump H d k of None \<Rightarrow> H | Some c \<Rightarrow> put_clump H d k (f c))"

text \<open>\<open>parentClump.childClumps.set(node, clump)\<close>: the key is added once.\<close>

definition add_child :: "nat \<Rightarrow> Clump \<Rightarrow> Clump" where
  "add_child k c = c\<lparr>childClumps := (if k \<in> set (childClumps c) then childClumps c
                                      else childClumps c @ [k])\<rparr>"

text \<open>One iteration of \<open>for (let depth in ancestors)\<close> for a leaf with the given total
  stem length.\<close>

definition ancestor_step ::
  "(nat \<times> layoutNode) list \<Rightarrow> real \<Rightarrow> nat list \<Rightarrow> hierarchyLevels \<Rightarrow> nat \<Rightarrow> hierarchyLevels" where
  "ancestor_step mids leafTotalStemLength ancestors H depth =
     (let H1 = ensure_level H depth;
          ancestorId = ancestors ! depth
      in (case map_get mids ancestorId of
            None \<Rightarrow> H1
          | Some ancestorAtDepth \<Rightarrow>
              (case lookup_clump H1 depth ancestorId of
                 None \<Rightarrow>
                   (let parentKey = parentId (node ancestorAtDepth);
                        parentClump = previous_lookup H1 depth parentKey;
                        H2 = put_clump H1 depth ancestorId
                               (new_Clump ancestorId
                                  (if parentClump = None then None else Some parentKey)
                                  leafTotalStemLength)
                    in if parentClump = None then H2
                       else update_clump H2 (depth - 1) parentKey (add_child ancestorId))
               | Some clumpAtDepth \<Rightarrow>
                   (if longestLeafLength clumpAtDepth = 0 \<or>
                       leafTotalStemLength > longestLeafLength clumpAtDepth
                    then update_clump H1 depth ancestorId
                           (\<lambda>c. c\<lparr>longestLeafLength := leafTotalStemLength\<rparr>)
                    else H1))))"

text \<open>The body of the loop over the leaves: the ancestor clumps, then the leaf's own
  clump one level below its last ancestor.\<close>

definition leaf_step ::
  "(nat \<times> layoutNode) list \<Rightarrow> hierarchyLevels \<Rightarrow> layoutNode \<Rightarrow> error + hierarchyLevels" where
  "leaf_step mids H leafLayoutNode =
     (let leaf = node leafLayoutNode;
          leafTotalStemLength = totalStemLength_combined (stem leafLayoutNode);
          ancestors = (if ancestors_ids (stem leafLayoutNode) \<noteq> []
                       then ancestors_ids (stem leafLayoutNode) else [parentId leaf]);
          H1 = foldl (ancestor_step mids leafTotalStemLength ancestors) H [0..<length ancestors];
          leafDepth = length ancestors;
          H2 = ensure_level H1 leafDepth
      in if leafDepth = 0 \<or> map_get H2 (leafDepth - 1) = None then Inl TypeError
         else (let parentClump = lookup_clump H2 (leafDepth - 1) (parentId leaf);
                   H3 = put_clump H2 leafDepth (node_id leaf)
                          (new_Clump (node_id leaf)
                             (if parentClump = None then None else Some (parentId leaf))
                             leafTotalStemLength)
               in Inr (if parentClump = None then H3
                       else update_clump H3 (leafDepth - 1) (parentId leaf)
                              (add_child (node_id leaf)))))"

definition build_hierarchy :: "NodeAllocation \<Rightarrow> error + hierarchyLevels" where
  "build_hierarchy s = for_each (leaf_step (midPoints s)) [] (map_values (leaves s))"

text \<open>The child clumps of a clump of level \<open>depth - 1\<close>, which live in level \<open>depth\<close>.\<close>

definition child_clumps :: "hierarchyLevels \<Rightarrow> nat \<Rightarrow> Clump \<Rightarrow> Clump list" where
  "child_clumps H depth p = List.map_filter (lookup_clump H depth) (childClumps p)"

definition getTotalChildrenLongestLeafLength :: "hierarchyLevels \<Rightarrow> nat \<Rightarrow> Clump \<Rightarrow> real" where
  "getTotalChildrenLongestLeafLength H depth p =
     foldl (\<lambda>tot clump. tot + longestLeafLength clump) 0 (child_clumps H depth p)"

definition sumLongestLeafLengths :: "HierarchyLevel \<Rightarrow> HierarchyLevel" where
  "sumLongestLeafLengths lv =
     lv\<lparr>longestLeafLengthSum :=
          Some (foldl (\<lambda>tot clump. tot + longestLeafLength clump) 0 (map_values (clumps lv)))\<rparr>"

text \<open>The parent clump object of a clump at the given depth.\<close>

definition parent_of_clump :: "hierarchyLevels \<Rightarrow> nat \<Rightarrow> Clump \<Rightarrow> Clump option" where
  "parent_of_clump H depth c =
     (case parentClump c of None \<Rightarrow> None | Some pk \<Rightarrow> previous_lookup H depth pk)"

text \<open>The units of one clump. A product with \<open>undefined\<close> or with a non-finite quotient
  is not finite.\<close>

definition clumpUnits :: "hierarchyLevels \<Rightarrow> nat \<Rightarrow> Clump \<Rightarrow> real option" where
  "clumpUnits H depth clumpAtDepth =
     (let parentUnits = (case parent_of_clump H depth clumpAtDepth of
                           Some p \<Rightarrow> clump_units p
                         | None \<Rightarrow> Some 1);
          proportionFactor = (case parent_of_clump H depth clumpAtDepth of
                                Some p \<Rightarrow> Some (getTotalChildrenLongestLeafLength H depth p)
                              | None \<Rightarrow> (case map_get H depth of
                                           None \<Rightarrow> None
                                         | Some lv \<Rightarrow> longestLeafLengthSum lv))
      in (case parentUnits of
            None \<Rightarrow> None
          | Some pu \<Rightarrow>
              (case proportionFactor of
                 None \<Rightarrow> None
               | Some pf \<Rightarrow>
                   map_option (\<lambda>q. pu * q) (js_div (longestLeafLength clumpAtDepth) pf))))"

definition units_step ::
  "nat \<Rightarrow> hierarchyLevels \<times> (nat \<times> position) list \<Rightarrow> Clump
   \<Rightarrow> error + hierarchyLevels \<times> (nat \<times> position) list" where
  "units_step depth st clumpAtDepth =
     (case st of (H, pos) \<Rightarrow>
        and_then (validateStat (clumpUnits H depth clumpAtDepth) False) (\<lambda>v.
          (case map_get pos (clump_node clumpAtDepth) of
             None \<Rightarrow> Inl TypeError
           | Some p \<Rightarrow>
               Inr (update_clump H depth (clump_node clumpAtDepth) (\<lambda>c. c\<lparr>clump_units := Some v\<rparr>),
                    map_set pos (clump_node clumpAtDepth) (p\<lparr>units := v\<rparr>)))))"

definition level_step ::
  "hierarchyLevels \<times> (nat \<times> position) list \<Rightarrow> nat
   \<Rightarrow> error + hierarchyLevels \<times> (nat \<times> position) list" where
  "level_step st depth =
     (case st of (H, pos) \<Rightarrow>
        (case map_get H depth of
           None \<Rightarrow> Inl TypeError
         | Some hierarchyLevel \<Rightarrow>
             for_each (units_step depth)
               (map_set H depth (sumLongestLeafLengths hierarchyLevel), pos)
               (map_values (clumps hierarchyLevel))))"

definition allocate_units ::
  "hierarchyLevels \<Rightarrow> (nat \<times> position) list
   \<Rightarrow> error + hierarchyLevels \<times> (nat \<times> position) list" where
  "allocate_units H pos = for_each level_step (H, pos) [0..<length H]"

text \<open>The hierarchy is local to \<open>convertTotalStemLengthsToUnits\<close>; \<open>hierarchy_units\<close>
  returns it together with the positions so that the clumps can be inspected.\<close>

definition hierarchy_units ::
  "NodeAllocation \<Rightarrow> error + hierarchyLevels \<times> (nat \<times> position) list" where
  "hierarchy_units s =
     and_then (build_hierarchy s) (\<lambda>H. allocate_units H (nodeToPosition s))"

definition convertTotalStemLengthsToUnits :: "NodeAllocation \<Rightarrow> error + NodeAllocation" where
  "convertTotalStemLengthsToUnits s =
     and_then (hierarchy_units s) (\<lambda>r. Inr (s\<lparr>nodeToPosition := snd r\<rparr>))"

section \<open>Phase 2: 1D offsets along the perimeter\<close>

definition new_SpaceBlock :: "nat \<Rightarrow> real \<Rightarrow> real \<Rightarrow> SpaceBlock" where
  "new_SpaceBlock n b len =
     \<lparr>block_node = n, block_begin = b, block_end = b + len, center = b + len / 2\<rparr>"

definition contains1DPoint :: "LinearSpaceSegment \<Rightarrow> real \<Rightarrow> bool" where
  "contains1DPoint seg off = (seg_begin seg < off \<and> off < seg_end seg)"

text \<open>\<open>Array.prototype.find\<close> returns the first matching segment object, which the
  caller then mutates: the model returns its index, \<open>None\<close> for \<open>undefined\<close>.\<close>

fun find_segment :: "LinearSpaceSegment list \<Rightarrow> real \<Rightarrow> nat option" where
  "find_segment [] c = None"
| "find_segment (seg # segs) c =
     (if contains1DPoint seg c then Some 0 else map_option Suc (find_segment segs c))"

text \<open>\<open>Array.prototype.indexOf\<close>: the first index of the element, or \<open>-1\<close>.\<close>

fun indexOf :: "nat list \<Rightarrow> nat \<Rightarrow> int" where
  "indexOf [] k = - 1"
| "indexOf (a # as) k =
     (if a = k then 0 else (let r = indexOf as k in if r = - 1 then - 1 else r + 1))"

text \<open>The comparator \<open>intoOrder\<close> is the difference of the two leaves' indices in the
  display order, and \<open>Array.prototype.sort\<close> is stable: a stable sort by that index.\<close>

definition arrangedLeaves :: "NodeAllocation \<Rightarrow> layoutNode list" where
  "arrangedLeaves s =
     sort_key (\<lambda>leaf. indexOf (order (layout s)) (node_id (node leaf))) (map_values (leaves s))"

text \<open>The block that one iteration constructs for a leaf, from the current block (or
  the begin of the first segment when there is none yet).\<close>

definition next_block ::
  "NodeAllocation \<times> nat option \<times> SpaceBlock option \<Rightarrow> layoutNode \<Rightarrow> error + SpaceBlock" where
  "next_block st leafLayoutNode =
     (case st of (s, currentSegment, currentBlock) \<Rightarrow>
        (case map_get (nodeToPosition s) (node_id (node leafLayoutNode)) of
           None \<Rightarrow> Inl TypeError
         | Some position \<Rightarrow>
             (let allocatedSpace = units position * total1DSpaceAvailable s in
              (case currentBlock of
                 Some cb \<Rightarrow> Inr (new_SpaceBlock (node_id (node leafLayoutNode)) (block_end cb)
                                  allocatedSpace)
               | None \<Rightarrow>
                   (case currentSegment of
                      None \<Rightarrow> Inl TypeError
                    | Some i \<Rightarrow> Inr (new_SpaceBlock (node_id (node leafLayoutNode))
                                      (seg_begin (segments s ! i)) allocatedSpace))))))"

definition push_block :: "LinearSpaceSegment list \<Rightarrow> nat \<Rightarrow> SpaceBlock \<Rightarrow> LinearSpaceSegment list" where
  "push_block segs k b = segs[k := (segs ! k)\<lparr>blocks := blocks (segs ! k) @ [b]\<rparr>]"

definition set_offset :: "(nat \<times> position) list \<Rightarrow> nat \<Rightarrow> real \<Rightarrow> (nat \<times> position) list" where
  "set_offset pos n c =
     (case map_get pos n of None \<Rightarrow> pos | Some p \<Rightarrow> map_set pos n (p\<lparr>offset := Some c\<rparr>))"

definition offsets_step ::
  "NodeAllocation \<times> nat option \<times> SpaceBlock option \<Rightarrow> layoutNode
   \<Rightarrow> error + NodeAllocation \<times> nat option \<times> SpaceBlock option" where
  "offsets_step st leafLayoutNode =
     (case st of (s, currentSegment, currentBlock) \<Rightarrow>
        and_then (next_block st leafLayoutNode) (\<lambda>newBlock.
          (case find_segment (segments s) (center newBlock) of
             None \<Rightarrow> Inl TypeError
           | Some k \<Rightarrow>
               Inr (s\<lparr>nodeToPosition :=
                        set_offset (nodeToPosition s) (block_node newBlock) (center newBlock),
                      segments := push_block (segments s) k newBlock\<rparr>,
                    Some k, Some newBlock))))"

definition calculate1DLinearOffsets :: "NodeAllocation \<Rightarrow> error + NodeAllocation" where
  "calculate1DLinearOffsets s =
     and_then
       (for_each offsets_step (s, (if segments s = [] then None else Some 0), None)
          (arrangedLeaves s))
       (\<lambda>st. Inr (fst st))"

section \<open>Phase 3: 2D leaf coordinates\<close>

definition translate1DPointTo2D :: "LinearSpaceSegment \<Rightarrow> real \<Rightarrow> (real \<times> real) option" where
  "translate1DPointTo2D seg relativeOffset = pointAtLength (line seg) relativeOffset"

text \<open>Writes a validated point into the position record of a node; the record must
  exist.\<close>

definition write_xy ::
  "(nat \<times> position) list \<Rightarrow> nat \<Rightarrow> (real \<times> real) option \<Rightarrow> error + (nat \<times> position) list" where
  "write_xy pos n pt =
     and_then (validateStat (map_option fst pt) False) (\<lambda>vx.
       (case map_get pos n of
          None \<Rightarrow> Inl TypeError
        | Some p \<Rightarrow>
            and_then (validateStat (map_option snd pt) False) (\<lambda>vy.
              Inr (map_set pos n (p\<lparr>pos_x := vx, pos_y := vy\<rparr>)))))"

definition leaf2D_block ::
  "LinearSpaceSegment \<Rightarrow> (nat \<times> position) list \<Rightarrow> SpaceBlock \<Rightarrow> error + (nat \<times> position) list" where
  "leaf2D_block seg pos block =
     (let relativeOffset = center block - seg_begin seg
      in write_xy pos (block_node block) (translate1DPointTo2D seg relativeOffset))"

definition leaf2D_segment ::
  "(nat \<times> position) list \<Rightarrow> LinearSpaceSegment \<Rightarrow> error + (nat \<times> position) list" where
  "leaf2D_segment pos seg = for_each (leaf2D_block seg) pos (blocks seg)"

definition calculate2DLeafCoordinates :: "NodeAllocation \<Rightarrow> error + NodeAllocation" where
  "calculate2DLeafCoordinates s =
     and_then (for_each leaf2D_segment (nodeToPosition s) (segments s))
       (\<lambda>pos. Inr (s\<lparr>nodeToPosition := pos\<rparr>))"

section \<open>Phase 4: 2D midpoint coordinates\<close>

datatype placementMode = LENGTH_CONSTRAINED | SPIDER

definition getRootPosition :: "NodeAllocation \<Rightarrow> real \<Rightarrow> real \<times> real" where
  "getRootPosition s nodeDiameter =
     (svgWidth (layout s) / 2, svgDistanceFromEdge (layout s) + nodeDiameter / 2)"

definition ownLeavesInSubset :: "NodeAllocation \<Rightarrow> stem \<Rightarrow> nat list" where
  "ownLeavesInSubset s st = filter (\<lambda>leafId. map_get (leaves s) leafId \<noteq> None) (leaves_ids st)"

definition leafPositions :: "NodeAllocation \<Rightarrow> (nat \<times> position) list \<Rightarrow> stem \<Rightarrow> position option list" where
  "leafPositions s pos st =
     map (\<lambda>leafId. map_get pos (node_id (node (the (map_get (leaves s) leafId)))))
       (ownLeavesInSubset s st)"

text \<open>The reduction that sums the leaf positions, each partial sum validated.\<close>

definition leafCenter_sum :: "position option list \<Rightarrow> error + real \<times> real" where
  "leafCenter_sum ps =
     for_each (\<lambda>combinedPosition nodePosition.
         (case nodePosition of
            None \<Rightarrow> Inl TypeError
          | Some np \<Rightarrow>
              and_then (validateStat (Some (fst combinedPosition + pos_x np)) False) (\<lambda>sx.
              and_then (validateStat (Some (snd combinedPosition + pos_y np)) False) (\<lambda>sy.
                Inr (sx, sy)))))
       (0, 0) ps"

definition midpoint_step ::
  "NodeAllocation \<Rightarrow> placementMode \<Rightarrow> (nat \<times> position) list \<Rightarrow> layoutNode
   \<Rightarrow> error + (nat \<times> position) list" where
  "midpoint_step s placement pos layoutNode =
     (let midPoint = node layoutNode; stm = stem layoutNode in
      if map_get (layoutNodes s) (parentId midPoint) = None
      then write_xy pos (node_id midPoint) (Some (getRootPosition s (ownDiameter stm)))
      else
        (case parent layoutNode of
           None \<Rightarrow> Inl TypeError
         | Some parentStem \<Rightarrow>
             and_then (leafCenter_sum (leafPositions s pos stm)) (\<lambda>leafSum.
             and_then (validateStat (Some (real (length (leafPositions s pos stm)))) True)
               (\<lambda>count.
               let leafCenter = (fst leafSum / count, snd leafSum / count) in
               (case map_get pos (parentId midPoint) of
                  None \<Rightarrow> Inl TypeError
                | Some parentPosition \<Rightarrow>
                    (case placement of
                       LENGTH_CONSTRAINED \<Rightarrow>
                         (let l = \<lparr>label = [], x1 = pos_x parentPosition,
                                    y1 = pos_y parentPosition,
                                    x2 = fst leafCenter, y2 = snd leafCenter\<rparr>
                          in and_then (validateStat (Some (ownDiameter parentStem / 2)) False)
                               (\<lambda>parentRadius.
                             and_then (validateStat (Some (ownDiameter stm / 2)) False)
                               (\<lambda>thisRadius.
                             and_then (validateStat (Some (ownBetween stm)) False)
                               (\<lambda>lineLength.
                               write_xy pos (node_id midPoint)
                                 (pointAtLength l (parentRadius + lineLength + thisRadius))))))
                     | SPIDER \<Rightarrow>
                         (let combinedCenter =
                                (fst leafCenter + pos_x parentPosition / 2,
                                 snd leafCenter + pos_y parentPosition / 2)
                          in write_xy pos (node_id midPoint) (Some combinedCenter))))))))"

definition calculate2DMidpointCoordinates ::
  "placementMode \<Rightarrow> NodeAllocation \<Rightarrow> error + NodeAllocation" where
  "calculate2DMidpointCoordinates placement s =
     and_then (for_each (midpoint_step s placement) (nodeToPosition s) (map_values (midPoints s)))
       (\<lambda>pos. Inr (s\<lparr>nodeToPosition := pos\<rparr>))"

section \<open>Phase 5: leaf re-anchoring\<close>

definition constrain_step ::
  "NodeAllocation \<Rightarrow> (nat \<times> position) list \<Rightarrow> layoutNode \<Rightarrow> error + (nat \<times> position) list" where
  "constrain_step s pos layoutNode =
     (let leaf = node layoutNode; stm = stem layoutNode;
          parentDiameter = (case parent layoutNode of
                              Some parentStem \<Rightarrow> ownDiameter parentStem
                            | None \<Rightarrow> 0);
          parentPosition = (case map_get pos (parentId leaf) of
                              Some pp \<Rightarrow> (pos_x pp, pos_y pp)
                            | None \<Rightarrow> getRootPosition s parentDiameter)
      in (case map_get pos (node_id leaf) of
            None \<Rightarrow> Inl TypeError
          | Some position \<Rightarrow>
              (let l = \<lparr>label = [], x1 = fst parentPosition, y1 = snd parentPosition,
                         x2 = pos_x position, y2 = pos_y position\<rparr>;
                   parentRadius = parentDiameter / 2;
                   thisRadius = ownDiameter stm / 2;
                   lineLength = ownBetween stm
               in write_xy pos (node_id leaf)
                    (pointAtLength l (parentRadius + lineLength + thisRadius)))))"

definition constrain2DLeafCoordinates :: "NodeAllocation \<Rightarrow> error + NodeAllocation" where
  "constrain2DLeafCoordinates s =
     and_then (for_each (constrain_step s) (nodeToPosition s) (map_values (leaves s)))
       (\<lambda>pos. Inr (s\<lparr>nodeToPosition := pos\<rparr>))"

section \<open>The pipeline\<close>

definition process :: "placementMode \<Rightarrow> NodeAllocation \<Rightarrow> error + NodeAllocation" where
  "process placement s =
     and_then (convertTotalStemLengthsToUnits s) (\<lambda>s1.
     and_then (calculate1DLinearOffsets s1) (\<lambda>s2.
     and_then (calculate2DLeafCoordinates s2) (\<lambda>s3.
     and_then (calculate2DMidpointCoordinates placement s3) (\<lambda>s4.
       if placement = LENGTH_CONSTRAINED then constrain2DLeafCoordinates s4 else Inr s4))))"

section \<open>Auxiliary notions for the proofs\<close>

text \<open>A list of segments is chained from \<open>b\<close> when the first begins at \<open>b\<close>, each one
  begins where the previous one ends, and no segment ends before it begins.\<close>

fun chained :: "real \<Rightarrow> LinearSpaceSegment list \<Rightarrow> bool" where
  "chained b [] = True"
| "chained b (s # ss) = (seg_begin s = b \<and> b \<le> seg_end s \<and> chained (seg_end s) ss)"

text \<open>The segments that \<open>initializeSegments\<close> pushes for a list of coordinates, the
  first one beginning at \<open>b\<close>.\<close>

fun lay_out :: "real \<Rightarrow> coordinate list \<Rightarrow> LinearSpaceSegment list" where
  "lay_out b [] = []"
| "lay_out b (c # cs) = new_LinearSpaceSegment (label c) b c # lay_out (b + line_length c) cs"

text \<open>What the 1D-offset phase never changes in a segment.\<close>

definition geometry :: "LinearSpaceSegment list \<Rightarrow> (coordinate \<times> real \<times> real) list" where
  "geometry segs = map (\<lambda>s. (line s, seg_begin s, seg_end s)) segs"

text \<open>
  The 1D-offset phase in the words of the specification: contiguous blocks, the first
  one starting at \<open>b\<close>, each one as wide as its leaf's units times the total perimeter
  length. The list pairs each leaf's node id with its units, in visiting order.
\<close>

fun block_chain :: "real \<Rightarrow> real \<Rightarrow> (nat \<times> real) list \<Rightarrow> SpaceBlock list" where
  "block_chain b tot [] = []"
| "block_chain b tot (nu # rest) =
     new_SpaceBlock (fst nu) b (snd nu * tot) # block_chain (b + snd nu * tot) tot rest"

definition leaf_units :: "(nat \<times> position) list \<Rightarrow> layoutNode list \<Rightarrow> (nat \<times> real) list" where
  "leaf_units pos ls =
     map (\<lambda>l. (node_id (node l), units (the (map_get pos (node_id (node l)))))) ls"

text \<open>Where the next block of the loop starts.\<close>

definition loop_start :: "NodeAllocation \<times> nat option \<times> SpaceBlock option \<Rightarrow> real" where
  "loop_start st =
     (case st of (s, currentSegment, currentBlock) \<Rightarrow>
        (case currentBlock of
           Some cb \<Rightarrow> block_end cb
         | None \<Rightarrow> seg_begin (segments s ! the currentSegment)))"

text \<open>What one iteration of the 1D-offset loop preserves: the geometry of the segments,
  the total space, the units of every node, and the blocks already stored.\<close>

definition offsets_frame ::
  "NodeAllocation \<Rightarrow> NodeAllocation \<times> nat option \<times> SpaceBlock option \<Rightarrow> bool" where
  "offsets_frame s st \<longleftrightarrow>
     geometry (segments (fst st)) = geometry (segments s) \<and>
     total1DSpaceAvailable (fst st) = total1DSpaceAvailable s \<and>
     (\<forall>n. map_option units (map_get (nodeToPosition (fst st)) n) =
          map_option units (map_get (nodeToPosition s) n)) \<and>
     (\<forall>j < length (segments s). set (blocks (segments s ! j)) \<subseteq> set (blocks (segments (fst st) ! j)))"

text \<open>The elements of a list in the order of their first occurrence, each one once. A
  list without duplicates is its own list of first occurrences.\<close>

fun first_occurrences :: "nat list \<Rightarrow> nat list" where
  "first_occurrences [] = []"
| "first_occurrences (a # as) = a # removeAll a (first_occurrences as)"

text \<open>
  The leaf and midpoint maps of an allocation are well formed when every layout node is
  stored under the id of its node and no node is both a leaf and a midpoint. The keys
  of a map are distinct by construction.
\<close>

definition wf_maps :: "(nat \<times> layoutNode) list \<Rightarrow> (nat \<times> layoutNode) list \<Rightarrow> bool" where
  "wf_maps lvs mids \<longleftrightarrow>
     distinct (map fst lvs) \<and> distinct (map fst mids) \<and>
     list_all (\<lambda>kl. node_id (node (snd kl)) = fst kl) lvs \<and>
     list_all (\<lambda>kl. node_id (node (snd kl)) = fst kl) mids \<and>
     fst ` set lvs \<inter> fst ` set mids = {}"

definition well_formed :: "NodeAllocation \<Rightarrow> bool" where
  "well_formed s \<longleftrightarrow> wf_maps (leaves s) (midPoints s)"

text \<open>The part of an allocation that no phase of the pipeline changes.\<close>

definition static_part ::
  "NodeAllocation \<Rightarrow> layout \<times> (nat \<times> layoutNode) list \<times> (nat \<times> layoutNode) list \<times>
     (nat \<times> layoutNode) list \<times> (nat \<times> layoutNode) list \<times> real" where
  "static_part s =
     (layout s, layoutNodes s, leaves s, midPoints s, roots s, total1DSpaceAvailable s)"

section \<open>Scale\<close>

text \<open>
  Modelled from the spec: \<open>scale.js\<close> is not part of the available sources (only its
  tests are). The spec gives the queries \<open>getLineLength(n) = n \<times> scaleFactor\<close> and
  \<open>getCircleRadius(n) = getLineLength(n) / (2\<pi>)\<close>, which the tests check in the form
  \<open>(n * scaleFactor) / (2 * Math.PI)\<close>.
\<close>

definition getLineLength :: "real \<Rightarrow> real \<Rightarrow> real" where
  "getLineLength scaleFactor n = n * scaleFactor"

definition getCircleRadius :: "real \<Rightarrow> real \<Rightarrow> real" where
  "getCircleRadius scaleFactor n = getLineLength scaleFactor n / (2 * pi)"

section \<open>Auxiliary notions for the hierarchy of clumps\<close>


definition strip :: "Clump \<Rightarrow> Clump" where
  "strip c = c\<lparr>clump_units := None\<rparr>"




text \<open>
  The creation of a clump for node \<open>k\<close> at depth \<open>d\<close> with its link to the parent clump
  of node \<open>pk\<close>, as both the ancestor loop and the leaf part of the source do it: the new
  clump is stored, and when the parent clump exists the new clump is added to its
  children.
\<close>

definition link_clump :: "hierarchyLevels \<Rightarrow> nat \<Rightarrow> nat \<Rightarrow> nat \<Rightarrow> real \<Rightarrow> hierarchyLevels" where
  "link_clump H d k pk len =
     (if previous_lookup H d pk = None then put_clump H d k (new_Clump k None len)
      else update_clump (put_clump H d k (new_Clump k (Some pk) len)) (d - 1) pk (add_child k))"





text \<open>
  The quantities of the leaf re-anchoring, read from a position map: the diameter of the
  parent (0 without a parent layout node), the point the leaf is anchored at (the
  parent's position, or the synthetic root position when the parent has none), and the
  distance from it (parent radius, scaled edge length, own radius).
\<close>

definition parentDiameter_of :: "layoutNode \<Rightarrow> real" where
  "parentDiameter_of l = (case parent l of Some parentStem \<Rightarrow> ownDiameter parentStem | None \<Rightarrow> 0)"

definition anchor_of :: "NodeAllocation \<Rightarrow> (nat \<times> position) list \<Rightarrow> layoutNode \<Rightarrow> real \<times> real" where
  "anchor_of s pos l =
     (case map_get pos (parentId (node l)) of
        Some pp \<Rightarrow> (pos_x pp, pos_y pp)
      | None \<Rightarrow> getRootPosition s (parentDiameter_of l))"

definition anchor_distance :: "layoutNode \<Rightarrow> real" where
  "anchor_distance l = parentDiameter_of l / 2 + ownBetween (stem l) + ownDiameter (stem l) / 2"

section \<open>Small layouts used for concrete evaluations\<close>

text \<open>
  The tree \<open>1 \<rightarrow> {2, 3}\<close>, \<open>3 \<rightarrow> {4, 5}\<close> with leaves 2, 4 and 5 of total stem lengths
  100, 500 and 900, on a canvas of 1000 by 1000 with an edge distance of 30.
\<close>

definition example_layout :: layout where
  "example_layout =
     \<lparr>svgWidth = 1000, svgDistanceFromEdge = 30, finalSvgHeight = 1000, order = [2, 4, 5]\<rparr>"

definition example_stem1 :: stem where
  "example_stem1 = \<lparr>ancestors_ids = [], leaves_ids = [2, 4, 5], totalStemLength_combined = 0,
                     ownDiameter = 20, ownBetween = 0\<rparr>"

definition example_stem3 :: stem where
  "example_stem3 = \<lparr>ancestors_ids = [1], leaves_ids = [4, 5], totalStemLength_combined = 50,
                     ownDiameter = 10, ownBetween = 40\<rparr>"

definition example_leaf_stem :: "nat list \<Rightarrow> real \<Rightarrow> stem" where
  "example_leaf_stem ancestors len =
     \<lparr>ancestors_ids = ancestors, leaves_ids = [], totalStemLength_combined = len,
      ownDiameter = 10, ownBetween = len - 60\<rparr>"

definition example_node1 :: layoutNode where
  "example_node1 = \<lparr>layoutNode_id = 1, node = \<lparr>node_id = 1, parentId = 0, children = [2, 3]\<rparr>,
                     stem = example_stem1, parent = None\<rparr>"

definition example_node2 :: layoutNode where
  "example_node2 = \<lparr>layoutNode_id = 2, node = \<lparr>node_id = 2, parentId = 1, children = []\<rparr>,
                     stem = example_leaf_stem [1] 100, parent = Some example_stem1\<rparr>"

definition example_node3 :: layoutNode where
  "example_node3 = \<lparr>layoutNode_id = 3, node = \<lparr>node_id = 3, parentId = 1, children = [4, 5]\<rparr>,
                     stem = example_stem3, parent = Some example_stem1\<rparr>"

definition example_node4 :: layoutNode where
  "example_node4 = \<lparr>layoutNode_id = 4, node = \<lparr>node_id = 4, parentId = 3, children = []\<rparr>,
                     stem = example_leaf_stem [1, 3] 500, parent = Some example_stem3\<rparr>"

definition example_node5 :: layoutNode where
  "example_node5 = \<lparr>layoutNode_id = 5, node = \<lparr>node_id = 5, parentId = 3, children = []\<rparr>,
                     stem = example_leaf_stem [1, 3] 900, parent = Some example_stem3\<rparr>"

definition example_layoutNodes :: "(nat \<times> layoutNode) list" where
  "example_layoutNodes =
     [(1, example_node1), (2, example_node2), (3, example_node3), (4, example_node4),
      (5, example_node5)]"

text \<open>The three segments of the perimeter of that canvas, for a largest root diameter
  of at most 200.\<close>

definition example_segments :: "LinearSpaceSegment list" where
  "example_segments =
   [\<lparr>seg_label = ''LHS'', line = \<lparr>label = ''LHS'', x1 = 30, y1 = 230, x2 = 30, y2 = 970\<rparr>,
      seg_begin = 0, seg_end = 740, blocks = []\<rparr>,
    \<lparr>seg_label = ''BOT'', line = \<lparr>label = ''BOT'', x1 = 30, y1 = 970, x2 = 970, y2 = 970\<rparr>,
      seg_begin = 740, seg_end = 1680, blocks = []\<rparr>,
    \<lparr>seg_label = ''RHS'', line = \<lparr>label = ''RHS'', x1 = 970, y1 = 970, x2 = 970, y2 = 230\<rparr>,
      seg_begin = 1680, seg_end = 2420, blocks = []\<rparr>]"

text \<open>The allocation as constructed, after the unit conversion and after the 1D-offset
  phase.\<close>

definition example_s0 :: NodeAllocation where
  "example_s0 =
     \<lparr>layout = example_layout, layoutNodes = example_layoutNodes,
      nodeToPosition = map (\<lambda>n. (n, initial_position)) [1, 2, 3, 4, 5],
      leaves = [(2, example_node2), (4, example_node4), (5, example_node5)],
      midPoints = [(1, example_node1), (3, example_node3)],
      roots = [(1, example_node1)], segments = example_segments,
      total1DSpaceAvailable = 2420\<rparr>"

definition example_s1 :: NodeAllocation where
  "example_s1 = projr (convertTotalStemLengthsToUnits example_s0)"

definition example_s2 :: NodeAllocation where
  "example_s2 = projr (calculate1DLinearOffsets example_s1)"

text \<open>The same nodes under the display order 5, 2, 4, which is not the order of the
  leaf map, 2, 4, 5.\<close>

definition permuted_layout :: layout where
  "permuted_layout =
     \<lparr>svgWidth = 1000, svgDistanceFromEdge = 30, finalSvgHeight = 1000, order = [5, 2, 4]\<rparr>"

definition permuted_s0 :: NodeAllocation where
  "permuted_s0 = example_s0\<lparr>layout := permuted_layout\<rparr>"

definition permuted_s1 :: NodeAllocation where
  "permuted_s1 = projr (convertTotalStemLengthsToUnits permuted_s0)"

definition permuted_s2 :: NodeAllocation where
  "permuted_s2 = projr (calculate1DLinearOffsets permuted_s1)"

text \<open>A root with the two leaves 2 and 3 of total stem lengths 74 and 47: the first
  leaf's block is centered on the boundary between the left and the bottom segment.\<close>

definition boundary_layout :: layout where
  "boundary_layout =
     \<lparr>svgWidth = 1000, svgDistanceFromEdge = 30, finalSvgHeight = 1000, order = [2, 3]\<rparr>"

definition boundary_stem1 :: stem where
  "boundary_stem1 = \<lparr>ancestors_ids = [], leaves_ids = [2, 3], totalStemLength_combined = 0,
                      ownDiameter = 20, ownBetween = 0\<rparr>"

definition boundary_node1 :: layoutNode where
  "boundary_node1 = \<lparr>layoutNode_id = 1, node = \<lparr>node_id = 1, parentId = 0, children = [2, 3]\<rparr>,
                      stem = boundary_stem1, parent = None\<rparr>"

definition boundary_node2 :: layoutNode where
  "boundary_node2 = \<lparr>layoutNode_id = 2, node = \<lparr>node_id = 2, parentId = 1, children = []\<rparr>,
                      stem = example_leaf_stem [1] 74, parent = Some boundary_stem1\<rparr>"

definition boundary_node3 :: layoutNode where
  "boundary_node3 = \<lparr>layoutNode_id = 3, node = \<lparr>node_id = 3, parentId = 1, children = []\<rparr>,
                      stem = example_leaf_stem [1] 47, parent = Some boundary_stem1\<rparr>"

definition boundary_layoutNodes :: "(nat \<times> layoutNode) list" where
  "boundary_layoutNodes = [(1, boundary_node1), (2, boundary_node2), (3, boundary_node3)]"

definition boundary_s0 :: NodeAllocation where
  "boundary_s0 =
     \<lparr>layout = boundary_layout, layoutNodes = boundary_layoutNodes,
      nodeToPosition = map (\<lambda>n. (n, initial_position)) [1, 2, 3],
      leaves = [(2, boundary_node2), (3, boundary_node3)],
      midPoints = [(1, boundary_node1)],
      roots = [(1, boundary_node1)], segments = example_segments,
      total1DSpaceAvailable = 2420\<rparr>"

definition boundary_s1 :: NodeAllocation where
  "boundary_s1 = projr (convertTotalStemLengthsToUnits boundary_s0)"

text \<open>The example after a whole run in spider mode.\<close>

definition example_spider :: NodeAllocation where
  "example_spider = projr (process SPIDER example_s0)"

text \<open>A root 1 with the leaf 4 and the midpoint 2, whose only descendant leaf 3 is not
  part of the active subset.\<close>

definition orphan_stem1 :: stem where
  "orphan_stem1 = \<lparr>ancestors_ids = [], leaves_ids = [3, 4], totalStemLength_combined = 0,
                    ownDiameter = 20, ownBetween = 0\<rparr>"

definition orphan_node1 :: layoutNode where
  "orphan_node1 = \<lparr>layoutNode_id = 1, node = \<lparr>node_id = 1, parentId = 0, children = [2, 4]\<rparr>,
                    stem = orphan_stem1, parent = None\<rparr>"

definition orphan_node2 :: layoutNode where
  "orphan_node2 = \<lparr>layoutNode_id = 2, node = \<lparr>node_id = 2, parentId = 1, children = [3]\<rparr>,
                    stem = \<lparr>ancestors_ids = [1], leaves_ids = [3], totalStemLength_combined = 50,
                            ownDiameter = 10, ownBetween = 40\<rparr>,
                    parent = Some orphan_stem1\<rparr>"

definition orphan_node4 :: layoutNode where
  "orphan_node4 = \<lparr>layoutNode_id = 4, node = \<lparr>node_id = 4, parentId = 1, children = []\<rparr>,
                    stem = example_leaf_stem [1] 100, parent = Some orphan_stem1\<rparr>"

definition orphan_layoutNodes :: "(nat \<times> layoutNode) list" where
  "orphan_layoutNodes = [(1, orphan_node1), (2, orphan_node2), (4, orphan_node4)]"

definition orphan_s0 :: NodeAllocation where
  "orphan_s0 =
     \<lparr>layout = example_layout, layoutNodes = orphan_layoutNodes,
      nodeToPosition = map (\<lambda>n. (n, initial_position)) [1, 2, 4],
      leaves = [(4, orphan_node4)],
      midPoints = [(1, orphan_node1), (2, orphan_node2)],
      roots = [(1, orphan_node1)], segments = example_segments,
      total1DSpaceAvailable = 2420\<rparr>"

text \<open>A root 1 with the single leaf 2, and its allocation after the 2D leaf phase, after
  the midpoint phase and after the re-anchoring of the leaves.\<close>

definition single_stem1 :: stem where
  "single_stem1 = \<lparr>ancestors_ids = [], leaves_ids = [2], totalStemLength_combined = 0,
                    ownDiameter = 20, ownBetween = 0\<rparr>"

definition single_node1 :: layoutNode where
  "single_node1 = \<lparr>layoutNode_id = 1, node = \<lparr>node_id = 1, parentId = 0, children = [2]\<rparr>,
                    stem = single_stem1, parent = None\<rparr>"

definition single_node2 :: layoutNode where
  "single_node2 = \<lparr>layoutNode_id = 2, node = \<lparr>node_id = 2, parentId = 1, children = []\<rparr>,
                    stem = example_leaf_stem [1] 100, parent = Some single_stem1\<rparr>"

definition single_s0 :: NodeAllocation where
  "single_s0 =
     \<lparr>layout = example_layout, layoutNodes = [(1, single_node1), (2, single_node2)],
      nodeToPosition = map (\<lambda>n. (n, initial_position)) [1, 2],
      leaves = [(2, single_node2)], midPoints = [(1, single_node1)],
      roots = [(1, single_node1)], segments = example_segments,
      total1DSpaceAvailable = 2420\<rparr>"

definition single_s3 :: NodeAllocation where
  "single_s3 =
     projr (calculate2DLeafCoordinates
       (projr (calculate1DLinearOffsets (projr (convertTotalStemLengthsToUnits single_s0)))))"

definition single_s4 :: NodeAllocation where
  "single_s4 = projr (calculate2DMidpointCoordinates LENGTH_CONSTRAINED single_s3)"

definition single_s5 :: NodeAllocation where
  "single_s5 = projr (constrain2DLeafCoordinates single_s4)"




section \<open>Loops and segments: basic facts\<close>

lemma map_get_map_set: "map_get (map_set m k v) k' = (if k' = k then Some v else map_get m k')"
  by (induction m) (auto simp: map_get_def)

lemma map_fst_map_set:
  "map fst (map_set m k v) = (if k \<in> fst ` set m then map fst m else map fst m @ [k])"
  by (induction m) force+

lemma map_get_None_iff: "map_get m k = None \<longleftrightarrow> k \<notin> fst ` set m"
  by (simp add: map_get_def map_of_eq_None_iff)





lemma for_each_append:
  "for_each f st (xs @ ys) =
     (case for_each f st xs of Inl e \<Rightarrow> Inl e | Inr st' \<Rightarrow> for_each f st' ys)"
  by (induction xs arbitrary: st) (auto split: sum.splits)

lemma for_each_invariant:
  assumes "for_each f st xs = Inr st'" and "P st"
    and "\<And>a b c. P a \<Longrightarrow> b \<in> set xs \<Longrightarrow> f a b = Inr c \<Longrightarrow> P c"
  shows "P st'"
  using assms
proof (induction xs arbitrary: st)
  case Nil
  then show ?case by simp
next
  case (Cons a as)
  from Cons.prems(1) obtain st1 where s1: "f st a = Inr st1" and r: "for_each f st1 as = Inr st'"
    by (auto split: sum.splits)
  have p1: "P st1" by (rule Cons.prems(3) [OF Cons.prems(2) _ s1]) simp
  show ?case
  proof (rule Cons.IH [OF r p1])
    fix a b c
    assume "P a" and "b \<in> set as" and "f a b = Inr c"
    then show "P c" using Cons.prems(3) [of a b c] by simp
  qed
qed



lemma line_length_nonneg: "0 \<le> line_length c"
  by (simp add: line_length_def euclidean_def)

lemma chained_bounds:
  "chained b segs \<Longrightarrow> k < length segs \<Longrightarrow>
     b \<le> seg_begin (segs ! k) \<and> seg_begin (segs ! k) \<le> seg_end (segs ! k)"
proof (induction segs arbitrary: b k)
  case Nil
  then show ?case by simp
next
  case (Cons s ss)
  have le: "seg_begin s \<le> seg_end s" using Cons.prems(1) by simp
  show ?case
  proof (cases k)
    case 0
    then show ?thesis using Cons.prems le by simp
  next
    case (Suc j)
    then have "seg_end s \<le> seg_begin (ss ! j) \<and> seg_begin (ss ! j) \<le> seg_end (ss ! j)"
      using Cons.IH [of "seg_end s" j] Cons.prems by simp
    then show ?thesis using Suc Cons.prems le by simp
  qed
qed

lemma find_segment_below:
  "chained b segs \<Longrightarrow> c \<le> b \<Longrightarrow> find_segment segs c = None"
proof (induction segs arbitrary: b)
  case Nil
  then show ?case by simp
next
  case (Cons s ss)
  have le: "seg_begin s \<le> seg_end s" using Cons.prems(1) by simp
  have "find_segment ss c = None" using Cons.IH [of "seg_end s"] Cons.prems le by simp
  then show ?case using Cons.prems by (simp add: contains1DPoint_def)
qed

lemma find_segment_boundary:
  "chained b segs \<Longrightarrow> k < length segs \<Longrightarrow>
   c = seg_begin (segs ! k) \<or> c = seg_end (segs ! k) \<Longrightarrow> find_segment segs c = None"
proof (induction segs arbitrary: b k)
  case Nil
  then show ?case by simp
next
  case (Cons s ss)
  have le: "seg_begin s \<le> seg_end s" using Cons.prems(1) by simp
  have ch: "chained (seg_end s) ss" using Cons.prems(1) by simp
  show ?case
  proof (cases k)
    case 0
    then have c: "c = seg_begin s \<or> c = seg_end s" using Cons.prems(3) by simp
    then have "c \<le> seg_end s" using le by auto
    then have "find_segment ss c = None" using find_segment_below [OF ch] by simp
    then show ?thesis using c by (auto simp: contains1DPoint_def)
  next
    case (Suc j)
    then have j: "j < length ss" and cj: "c = seg_begin (ss ! j) \<or> c = seg_end (ss ! j)"
      using Cons.prems by simp_all
    have "seg_end s \<le> seg_begin (ss ! j) \<and> seg_begin (ss ! j) \<le> seg_end (ss ! j)"
      using chained_bounds [OF ch j] .
    then have "\<not> contains1DPoint s c" using cj by (auto simp: contains1DPoint_def)
    then show ?thesis using Cons.IH [OF ch j cj] by simp
  qed
qed

lemma find_segment_inside:
  "chained b segs \<Longrightarrow> k < length segs \<Longrightarrow> contains1DPoint (segs ! k) c \<Longrightarrow>
   find_segment segs c = Some k"
proof (induction segs arbitrary: b k)
  case Nil
  then show ?case by simp
next
  case (Cons s ss)
  have ch: "chained (seg_end s) ss" using Cons.prems(1) by simp
  show ?case
  proof (cases k)
    case 0
    then show ?thesis using Cons.prems by simp
  next
    case (Suc j)
    then have j: "j < length ss" and cj: "contains1DPoint (ss ! j) c"
      using Cons.prems by simp_all
    have "seg_end s \<le> seg_begin (ss ! j)" using chained_bounds [OF ch j] by simp
    then have "\<not> contains1DPoint s c" using cj by (auto simp: contains1DPoint_def)
    then show ?thesis using Cons.IH [OF ch j cj] Suc by simp
  qed
qed

lemma find_segment_Some:
  "find_segment segs c = Some k \<Longrightarrow> k < length segs \<and> contains1DPoint (segs ! k) c"
proof (induction segs arbitrary: k)
  case Nil
  then show ?case by simp
next
  case (Cons s ss)
  then show ?case by (cases k) (auto split: if_splits)
qed


lemma geometry_Nil [simp]: "geometry [] = []"
  by (simp add: geometry_def)

lemma geometry_Cons [simp]:
  "geometry (s # ss) = (line s, seg_begin s, seg_end s) # geometry ss"
  by (simp add: geometry_def)

lemma length_geometry [simp]: "length (geometry segs) = length segs"
  by (simp add: geometry_def)

lemma geometry_push_block: "geometry (push_block segs k b) = geometry segs"
proof (cases "k < length segs")
  case True
  have "(map (\<lambda>s. (line s, seg_begin s, seg_end s)) segs)
          [k := (map (\<lambda>s. (line s, seg_begin s, seg_end s)) segs) ! k] =
        map (\<lambda>s. (line s, seg_begin s, seg_end s)) segs"
    by (rule list_update_id)
  then show ?thesis using True by (simp add: geometry_def push_block_def map_update)
next
  case False
  then show ?thesis by (simp add: geometry_def push_block_def list_update_beyond)
qed

lemma find_segment_geometry:
  "geometry segs = geometry segs' \<Longrightarrow> find_segment segs c = find_segment segs' c"
proof (induction segs arbitrary: segs')
  case Nil
  then have "segs' = []" by (cases segs') simp_all
  then show ?case by simp
next
  case (Cons s ss)
  show ?case
  proof (cases segs')
    case Nil
    then show ?thesis using Cons.prems by simp
  next
    case (Cons t ts)
    have g: "geometry ss = geometry ts" and b: "seg_begin s = seg_begin t"
      and e: "seg_end s = seg_end t"
      using Cons.prems Cons by simp_all
    have "find_segment ss c = find_segment ts c" using g by (rule Cons.IH)
    then show ?thesis unfolding Cons by (simp add: contains1DPoint_def b e)
  qed
qed

lemma chained_geometry:
  "geometry segs = geometry segs' \<Longrightarrow> chained b segs \<Longrightarrow> chained b segs'"
proof (induction segs arbitrary: segs' b)
  case Nil
  then have "segs' = []" by (cases segs') simp_all
  then show ?case by simp
next
  case (Cons s ss)
  show ?case
  proof (cases segs')
    case Nil
    then show ?thesis using Cons.prems by simp
  next
    case (Cons t ts)
    have g: "geometry ss = geometry ts" and b: "seg_begin s = seg_begin t"
      and e: "seg_end s = seg_end t"
      using Cons.prems(1) Cons by simp_all
    have "chained (seg_end s) ts" using Cons.prems(2) Cons.IH [OF g] by simp
    then show ?thesis unfolding Cons using Cons.prems(2) b e by simp
  qed
qed


lemma line_length_vertical: "x1 c = x2 c \<Longrightarrow> line_length c = \<bar>y2 c - y1 c\<bar>"
  by (simp add: line_length_def euclidean_def)

lemma line_length_horizontal: "y1 c = y2 c \<Longrightarrow> line_length c = \<bar>x2 c - x1 c\<bar>"
  by (simp add: line_length_def euclidean_def)

text \<open>
  The length of a vertical or horizontal line needs no square root. Evaluation uses
  these equations and leaves any other length as it stands.
\<close>

lemma euclidean_code [code]:
  "euclidean dx dy = (if dx = 0 then \<bar>dy\<bar> else if dy = 0 then \<bar>dx\<bar> else euclidean dx dy)"
  by (simp add: euclidean_def)

section \<open>The three-sided perimeter\<close>

lemma lay_out_Nil_iff: "lay_out b cs = [] \<longleftrightarrow> cs = []"
  by (cases cs) simp_all

lemma initializeSegments_loop_eq:
  "initializeSegments_loop segs tot cs =
     (segs @ lay_out (if segs = [] then 0 else seg_end (last segs)) cs,
      tot + sum_list (map line_length cs))"
proof (induction cs arbitrary: segs tot)
  case Nil
  then show ?case by simp
next
  case (Cons c cs)
  show ?case
    by (simp add: Cons.IH Let_def new_LinearSpaceSegment_def)
qed

lemma initializeSegments_eq:
  "initializeSegments cs = (lay_out 0 cs, sum_list (map line_length cs))"
  by (simp add: initializeSegments_def initializeSegments_loop_eq)

lemma chained_lay_out: "chained b (lay_out b cs)"
  by (induction cs arbitrary: b) (auto simp: new_LinearSpaceSegment_def line_length_nonneg)

lemma foldl_max_Max:
  "foldl (\<lambda>largest r. max largest (f r)) (a::real) rs = Max (insert a (f ` set rs))"
proof (induction rs arbitrary: a)
  case Nil
  then show ?case by simp
next
  case (Cons r rs)
  have "Max (insert (max a (f r)) (f ` set rs)) = Max (insert a (insert (f r) (f ` set rs)))"
  proof (cases "set rs = {}")
    case True
    then show ?thesis by (simp add: max.commute)
  next
    case False
    then show ?thesis by (simp add: max.assoc)
  qed
  then show ?case using Cons by simp
qed

lemma threeSided_eq:
  "threeSided lay rts =
     Inr [\<lparr>label = ''LHS'', x1 = svgDistanceFromEdge lay, y1 = topOffset lay rts,
            x2 = svgDistanceFromEdge lay, y2 = finalSvgHeight lay - svgDistanceFromEdge lay\<rparr>,
          \<lparr>label = ''BOT'', x1 = svgDistanceFromEdge lay,
            y1 = finalSvgHeight lay - svgDistanceFromEdge lay,
            x2 = svgWidth lay - svgDistanceFromEdge lay,
            y2 = finalSvgHeight lay - svgDistanceFromEdge lay\<rparr>,
          \<lparr>label = ''RHS'', x1 = svgWidth lay - svgDistanceFromEdge lay,
            y1 = finalSvgHeight lay - svgDistanceFromEdge lay,
            x2 = svgWidth lay - svgDistanceFromEdge lay, y2 = topOffset lay rts\<rparr>]"
  by (simp add: threeSided_def and_then_def validateNumber_def)

lemma new_NodeAllocation_eq:
  "new_NodeAllocation lay lns =
     (case categorize ([], [], []) (map_values lns) of (pos, lvs, mids) \<Rightarrow>
        Inr \<lparr>layout = lay, layoutNodes = lns, nodeToPosition = pos, leaves = lvs,
             midPoints = mids, roots = collect_roots mids [] (map_values mids),
             segments = lay_out 0 (projr (threeSided lay (collect_roots mids [] (map_values mids)))),
             total1DSpaceAvailable =
               sum_list (map line_length
                 (projr (threeSided lay (collect_roots mids [] (map_values mids)))))\<rparr>)"
  by (simp add: new_NodeAllocation_def Let_def and_then_def initializeSegments_eq threeSided_eq
      split: prod.splits)

text \<open>
  Claim C9. The allocation built with the default three-sided generator always exists
  and has exactly three segments. The top of the left border (and of the right one) is
  at the edge distance plus the larger of 20% of the final height and the largest
  root diameter (the maximum of the roots' own scaled diameters and the start value 0
  of the reduction). The first segment begins at 0, each further one begins where the
  previous one ends, every segment ends its line's length after its begin, and the
  total 1D space is the sum of the three lengths.
\<close>

theorem threeSided_perimeter:
  "\<exists>s seg0 seg1 seg2.
     new_NodeAllocation lay lns = Inr s \<and> segments s = [seg0, seg1, seg2] \<and>
     y1 (line seg0) = svgDistanceFromEdge lay +
        max (finalSvgHeight lay * (2 / 10))
            (Max (insert 0 ((\<lambda>r. ownDiameter (stem r)) ` set (map_values (roots s))))) \<and>
     y2 (line seg2) = y1 (line seg0) \<and>
     seg_begin seg0 = 0 \<and> seg_begin seg1 = seg_end seg0 \<and> seg_begin seg2 = seg_end seg1 \<and>
     seg_end seg0 = seg_begin seg0 + line_length (line seg0) \<and>
     seg_end seg1 = seg_begin seg1 + line_length (line seg1) \<and>
     seg_end seg2 = seg_begin seg2 + line_length (line seg2) \<and>
     total1DSpaceAvailable s =
       line_length (line seg0) + line_length (line seg1) + line_length (line seg2)"
proof -
  obtain pos lvs mids where c: "categorize ([], [], []) (map_values lns) = (pos, lvs, mids)"
    by (cases "categorize ([], [], []) (map_values lns)") auto
  show ?thesis
    unfolding new_NodeAllocation_eq c
    by (simp add: threeSided_eq new_LinearSpaceSegment_def topOffset_def largestRootDiameter_def
        foldl_max_Max)
qed

section \<open>The 1D-offset phase\<close>


lemma next_block_Inr:
  assumes "next_block st l = Inr B"
  shows "\<exists>p. map_get (nodeToPosition (fst st)) (node_id (node l)) = Some p \<and>
             B = new_SpaceBlock (node_id (node l)) (loop_start st)
                   (units p * total1DSpaceAvailable (fst st))"
proof -
  obtain s cur cb where st: "st = (s, cur, cb)" by (cases st) auto
  show ?thesis
    using assms unfolding st next_block_def loop_start_def
    by (auto simp: Let_def split: option.splits)
qed

lemma offsets_step_Inr:
  assumes "offsets_step st l = Inr st1"
  shows "\<exists>B k. next_block st l = Inr B \<and> find_segment (segments (fst st)) (center B) = Some k \<and>
           st1 = ((fst st)\<lparr>nodeToPosition :=
                      set_offset (nodeToPosition (fst st)) (block_node B) (center B),
                    segments := push_block (segments (fst st)) k B\<rparr>, Some k, Some B)"
proof -
  obtain s cur cb where st: "st = (s, cur, cb)" by (cases st) auto
  show ?thesis
    using assms unfolding st offsets_step_def and_then_def
    by (auto split: sum.splits option.splits)
qed

lemma units_set_offset:
  "map_option units (map_get (set_offset pos n c) m) = map_option units (map_get pos m)"
  by (auto simp: set_offset_def map_get_map_set split: option.splits)

lemma set_offset_other: "m \<noteq> n \<Longrightarrow> map_get (set_offset pos n c) m = map_get pos m"
  by (simp add: set_offset_def map_get_map_set split: option.splits)

lemma set_offset_same:
  "map_get pos n = Some p \<Longrightarrow> map_get (set_offset pos n c) n = Some (p\<lparr>offset := Some c\<rparr>)"
  by (simp add: set_offset_def map_get_map_set)

lemma block_node_new [simp]: "block_node (new_SpaceBlock n b len) = n"
  by (simp add: new_SpaceBlock_def)

lemma block_end_new [simp]: "block_end (new_SpaceBlock n b len) = b + len"
  by (simp add: new_SpaceBlock_def)

lemma center_new [simp]: "center (new_SpaceBlock n b len) = b + len / 2"
  by (simp add: new_SpaceBlock_def)

lemma block_begin_new [simp]: "block_begin (new_SpaceBlock n b len) = b"
  by (simp add: new_SpaceBlock_def)

lemma length_push_block [simp]: "length (push_block segs k b) = length segs"
  by (simp add: push_block_def)

lemma blocks_push_block:
  "j < length segs \<Longrightarrow>
   blocks (push_block segs k b ! j) = (if j = k then blocks (segs ! j) @ [b] else blocks (segs ! j))"
  by (simp add: push_block_def nth_list_update)

lemma length_geometry_eq: "geometry a = geometry b \<Longrightarrow> length a = length b"
  using length_geometry by metis

lemma offsets_frame_refl: "offsets_frame s (s, cur, cb)"
  by (simp add: offsets_frame_def)

lemma offsets_frame_step:
  assumes "offsets_frame s st" and "offsets_step st l = Inr st1"
  shows "offsets_frame s st1"
proof -
  from offsets_step_Inr [OF assms(2)] obtain B k where
    st1: "st1 = ((fst st)\<lparr>nodeToPosition :=
                      set_offset (nodeToPosition (fst st)) (block_node B) (center B),
                    segments := push_block (segments (fst st)) k B\<rparr>, Some k, Some B)"
    by blast
  have len: "length (segments (fst st)) = length (segments s)"
    using assms(1) length_geometry_eq unfolding offsets_frame_def by blast
  have "\<forall>j < length (segments s).
          set (blocks (segments s ! j)) \<subseteq> set (blocks (push_block (segments (fst st)) k B ! j))"
  proof (intro allI impI)
    fix j assume j: "j < length (segments s)"
    then have "set (blocks (segments s ! j)) \<subseteq> set (blocks (segments (fst st) ! j))"
      using assms(1) by (simp add: offsets_frame_def)
    then show "set (blocks (segments s ! j)) \<subseteq> set (blocks (push_block (segments (fst st)) k B ! j))"
      using j len by (auto simp: blocks_push_block)
  qed
  then show ?thesis
    using assms(1) unfolding st1 offsets_frame_def
    by (simp add: geometry_push_block units_set_offset)
qed

lemma offsets_frame_loop:
  assumes "for_each offsets_step st ls = Inr st'" and "offsets_frame s st"
  shows "offsets_frame s st'"
  using assms(1) assms(2)
proof (rule for_each_invariant)
  fix a b c
  assume "offsets_frame s a" and "offsets_step a b = Inr c"
  then show "offsets_frame s c" by (rule offsets_frame_step)
qed

lemma offsets_loop_other:
  assumes "for_each offsets_step st ls = Inr st'" and "n \<notin> (\<lambda>l. node_id (node l)) ` set ls"
  shows "map_get (nodeToPosition (fst st')) n = map_get (nodeToPosition (fst st)) n"
  using assms
proof (induction ls arbitrary: st)
  case Nil
  then show ?case by simp
next
  case (Cons l ls)
  from Cons.prems(1) obtain st1 where s1: "offsets_step st l = Inr st1"
    and r: "for_each offsets_step st1 ls = Inr st'"
    by (auto split: sum.splits)
  from offsets_step_Inr [OF s1] obtain B k where nb: "next_block st l = Inr B" and
    st1: "st1 = ((fst st)\<lparr>nodeToPosition :=
                      set_offset (nodeToPosition (fst st)) (block_node B) (center B),
                    segments := push_block (segments (fst st)) k B\<rparr>, Some k, Some B)"
    by blast
  from next_block_Inr [OF nb] have bn: "block_node B = node_id (node l)" by auto
  have "n \<noteq> node_id (node l)" using Cons.prems(2) by auto
  then have "map_get (nodeToPosition (fst st1)) n = map_get (nodeToPosition (fst st)) n"
    unfolding st1 by (simp add: set_offset_other bn)
  moreover have "map_get (nodeToPosition (fst st')) n = map_get (nodeToPosition (fst st1)) n"
    using Cons.IH [OF r] Cons.prems(2) by simp
  ultimately show ?case by simp
qed

lemma units_the_cong:
  assumes "map_option units (a::position option) = map_option units (b::position option)"
  shows "units (the a) = units (the b)"
  using assms by (cases a; cases b) simp_all

lemma leaf_units_cong:
  assumes "\<forall>n. map_option units (map_get pos n) = map_option units (map_get pos' n)"
  shows "leaf_units pos ls = leaf_units pos' ls"
  unfolding leaf_units_def
proof (rule map_cong [OF refl])
  fix l
  have "map_option units (map_get pos (node_id (node l))) =
        map_option units (map_get pos' (node_id (node l)))"
    using assms by blast
  then have "units (the (map_get pos (node_id (node l)))) =
             units (the (map_get pos' (node_id (node l))))"
    by (rule units_the_cong)
  then show "(node_id (node l), units (the (map_get pos (node_id (node l))))) =
             (node_id (node l), units (the (map_get pos' (node_id (node l)))))"
    by simp
qed



lemma offsets_loop_chain:
  assumes "for_each offsets_step st ls = Inr st'"
    and "distinct (map (\<lambda>l. node_id (node l)) ls)"
    and "i < length ls"
  shows "(\<exists>p. map_get (nodeToPosition (fst st')) (node_id (node (ls ! i))) = Some p \<and>
              offset p = Some (center (block_chain (loop_start st) (total1DSpaceAvailable (fst st))
                            (leaf_units (nodeToPosition (fst st)) ls) ! i))) \<and>
         (\<exists>k. find_segment (segments (fst st))
                 (center (block_chain (loop_start st) (total1DSpaceAvailable (fst st))
                            (leaf_units (nodeToPosition (fst st)) ls) ! i)) = Some k \<and>
              block_chain (loop_start st) (total1DSpaceAvailable (fst st))
                (leaf_units (nodeToPosition (fst st)) ls) ! i
                \<in> set (blocks (segments (fst st') ! k)))"
  using assms
proof (induction ls arbitrary: st i)
  case Nil
  then show ?case by simp
next
  case (Cons l ls)
  from Cons.prems(1) obtain st1 where s1: "offsets_step st l = Inr st1"
    and r: "for_each offsets_step st1 ls = Inr st'"
    by (auto split: sum.splits)
  from offsets_step_Inr [OF s1] obtain B k where nb: "next_block st l = Inr B"
    and fs: "find_segment (segments (fst st)) (center B) = Some k"
    and st1: "st1 = ((fst st)\<lparr>nodeToPosition :=
                      set_offset (nodeToPosition (fst st)) (block_node B) (center B),
                    segments := push_block (segments (fst st)) k B\<rparr>, Some k, Some B)"
    by blast
  from next_block_Inr [OF nb] obtain p where
    p: "map_get (nodeToPosition (fst st)) (node_id (node l)) = Some p" and
    B: "B = new_SpaceBlock (node_id (node l)) (loop_start st)
              (units p * total1DSpaceAvailable (fst st))"
    by blast
  have bn: "block_node B = node_id (node l)" by (simp add: B)
  have k: "k < length (segments (fst st))" using find_segment_Some [OF fs] by simp
  have tot1: "total1DSpaceAvailable (fst st1) = total1DSpaceAvailable (fst st)"
    by (simp add: st1)
  have start1: "loop_start st1 = loop_start st + units p * total1DSpaceAvailable (fst st)"
    by (simp add: st1 loop_start_def B)
  have lu1: "leaf_units (nodeToPosition (fst st1)) ls = leaf_units (nodeToPosition (fst st)) ls"
    by (rule leaf_units_cong) (simp add: st1 units_set_offset)
  have geo1: "geometry (segments (fst st1)) = geometry (segments (fst st))"
    by (simp add: st1 geometry_push_block)
  have chain: "block_chain (loop_start st) (total1DSpaceAvailable (fst st))
                 (leaf_units (nodeToPosition (fst st)) (l # ls)) =
               B # block_chain (loop_start st1) (total1DSpaceAvailable (fst st1))
                     (leaf_units (nodeToPosition (fst st1)) ls)"
    unfolding lu1 tot1 start1 by (simp add: leaf_units_def p B)
  have fr: "offsets_frame (fst st1) st'"
    using r
  proof (rule offsets_frame_loop)
    show "offsets_frame (fst st1) st1" unfolding st1 by (simp add: offsets_frame_def)
  qed
  show ?case
  proof (cases i)
    case 0
    have "node_id (node l) \<notin> (\<lambda>l. node_id (node l)) ` set ls" using Cons.prems(2) by auto
    then have "map_get (nodeToPosition (fst st')) (node_id (node l)) =
               map_get (nodeToPosition (fst st1)) (node_id (node l))"
      using offsets_loop_other [OF r] by blast
    also have "\<dots> = Some (p\<lparr>offset := Some (center B)\<rparr>)"
      using set_offset_same [of "nodeToPosition (fst st)" "node_id (node l)" p "center B"] p
      by (simp add: st1 bn)
    finally have pos: "map_get (nodeToPosition (fst st')) (node_id (node l)) =
                       Some (p\<lparr>offset := Some (center B)\<rparr>)" .
    have "B \<in> set (blocks (segments (fst st1) ! k))"
      using k by (simp add: st1 blocks_push_block)
    moreover have "set (blocks (segments (fst st1) ! k)) \<subseteq> set (blocks (segments (fst st') ! k))"
      using fr k unfolding offsets_frame_def by (simp add: st1)
    ultimately have "B \<in> set (blocks (segments (fst st') ! k))" by blast
    then show ?thesis unfolding chain using 0 pos fs by simp
  next
    case (Suc j)
    then have j: "j < length ls" using Cons.prems(3) by simp
    have d: "distinct (map (\<lambda>l. node_id (node l)) ls)" using Cons.prems(2) by simp
    have fg: "\<And>c. find_segment (segments (fst st1)) c = find_segment (segments (fst st)) c"
      by (rule find_segment_geometry [OF geo1])
    show ?thesis unfolding chain using Cons.IH [OF r d j] Suc by (simp add: fg)
  qed
qed

lemma block_chain_length [simp]: "length (block_chain b tot us) = length us"
  by (induction us arbitrary: b) simp_all

lemma block_chain_nth:
  "i < length us \<Longrightarrow>
   block_chain b tot us ! i =
     new_SpaceBlock (fst (us ! i)) (b + tot * sum_list (map snd (take i us))) (snd (us ! i) * tot)"
proof (induction us arbitrary: b i)
  case Nil
  then show ?case by simp
next
  case (Cons u us)
  show ?case
  proof (cases i)
    case 0
    then show ?thesis by simp
  next
    case (Suc j)
    then have "j < length us" using Cons.prems by simp
    then show ?thesis using Cons.IH [of j "b + snd u * tot"] Suc
      by (simp add: algebra_simps)
  qed
qed

lemma block_chain_contiguous:
  "Suc i < length us \<Longrightarrow>
   block_begin (block_chain b tot us ! Suc i) = block_end (block_chain b tot us ! i)"
  by (simp add: block_chain_nth take_Suc_conv_app_nth algebra_simps)



lemma offsets_loop_needs_segment:
  assumes "for_each offsets_step (s, None, None) ls = Inr st'"
  shows "ls = []"
proof (cases ls)
  case Nil
  then show ?thesis .
next
  case (Cons l rest)
  have "offsets_step (s, None, None) l = Inl TypeError"
    by (simp add: offsets_step_def next_block_def and_then_def split: option.splits)
  then show ?thesis using assms Cons by simp
qed

lemma distinct_ids_arrangedLeaves:
  assumes "distinct (map (\<lambda>l. node_id (node l)) (map_values (leaves s)))"
  shows "distinct (map (\<lambda>l. node_id (node l)) (arrangedLeaves s))"
proof -
  have "mset (map (\<lambda>l. node_id (node l)) (arrangedLeaves s)) =
        mset (map (\<lambda>l. node_id (node l)) (map_values (leaves s)))"
    by (simp add: arrangedLeaves_def)
  then show ?thesis using assms mset_eq_imp_distinct_iff by blast
qed

text \<open>The visiting order: a stable sort by the index in the display order lists first
  the elements that the display order lacks, as they were, and then the others in the
  order of their first occurrence in the display order.\<close>

lemma map_insort_key:
  "map f (insort_key (\<lambda>x. g (f x)) a xs) = insort_key g (f a) (map f xs)"
  by (induction xs) simp_all

lemma map_sort_key: "map f (sort_key (\<lambda>x. g (f x)) xs) = sort_key g (map f xs)"
  by (induction xs) (simp_all add: map_insort_key)

lemma indexOf_ge: "- 1 \<le> indexOf xs k"
  by (induction xs) (simp_all add: Let_def)

lemma indexOf_notin: "indexOf xs k = - 1 \<longleftrightarrow> k \<notin> set xs"
proof (induction xs)
  case Nil
  then show ?case by simp
next
  case (Cons a as)
  have "- 1 \<le> indexOf as k" by (rule indexOf_ge)
  then have "indexOf as k + 1 \<noteq> - 1" by arith
  then show ?case using Cons by (simp add: Let_def)
qed

lemma indexOf_Cons_other:
  assumes "x \<noteq> a" and "x \<in> set as"
  shows "indexOf (a # as) x = indexOf as x + 1"
  using assms indexOf_notin [of as x] by (simp add: Let_def)

lemma indexOf_inj:
  assumes "a \<in> set xs" and "indexOf xs a = indexOf xs b"
  shows "a = b"
  using assms
proof (induction xs)
  case Nil
  then show ?case by simp
next
  case (Cons c cs)
  show ?case
  proof (cases "a = c")
    case True
    show ?thesis
    proof (rule ccontr)
      assume "a \<noteq> b"
      then have "indexOf (c # cs) b \<noteq> 0"
        using True indexOf_ge [of cs b] by (simp add: Let_def)
      then show False using Cons.prems(2) True by simp
    qed
  next
    case False
    then have a: "a \<in> set cs" using Cons.prems(1) by simp
    have ia: "indexOf (c # cs) a = indexOf cs a + 1" using False a by (rule indexOf_Cons_other)
    have "0 \<le> indexOf cs a" using indexOf_ge [of cs a] indexOf_notin [of cs a] a by arith
    then have pos: "0 < indexOf (c # cs) b" using ia Cons.prems(2) by simp
    then have bc: "b \<noteq> c" by auto
    have "indexOf cs b \<noteq> - 1" using pos bc by (auto simp: Let_def split: if_splits)
    then have "indexOf (c # cs) b = indexOf cs b + 1" using bc by (simp add: Let_def)
    then have "indexOf cs a = indexOf cs b" using ia Cons.prems(2) by simp
    then show ?thesis using Cons.IH a by simp
  qed
qed

lemma set_first_occurrences [simp]: "set (first_occurrences xs) = set xs"
  by (induction xs) auto

lemma distinct_first_occurrences [simp]: "distinct (first_occurrences xs)"
  by (induction xs) (simp_all add: distinct_removeAll)

lemma first_occurrences_distinct: "distinct xs \<Longrightarrow> first_occurrences xs = xs"
  by (induction xs) simp_all

lemma sorted_first_occurrences: "sorted (map (indexOf xs) (first_occurrences xs))"
proof (induction xs)
  case Nil
  then show ?case by simp
next
  case (Cons a as)
  let ?r = "removeAll a (first_occurrences as)"
  have eq: "map (indexOf (a # as)) ?r = map (\<lambda>x. indexOf as x + 1) ?r"
    by (rule map_cong [OF refl]) (rule indexOf_Cons_other; simp)
  have "sorted_wrt (\<lambda>x y. indexOf as x \<le> indexOf as y) (first_occurrences as)"
    using Cons.IH by (simp add: sorted_map)
  then have "sorted_wrt (\<lambda>x y. indexOf as x \<le> indexOf as y) ?r"
    unfolding removeAll_filter_not_eq by (rule sorted_wrt_filter)
  then have s: "sorted (map (\<lambda>x. indexOf as x + 1) ?r)" by (simp add: sorted_map)
  have "\<forall>v \<in> set (map (\<lambda>x. indexOf as x + 1) ?r). 0 \<le> v"
  proof
    fix v assume "v \<in> set (map (\<lambda>x. indexOf as x + 1) ?r)"
    then obtain x where "v = indexOf as x + 1" by auto
    then show "0 \<le> v" using indexOf_ge [of as x] by arith
  qed
  then have nonneg: "\<forall>v \<in> set (map (\<lambda>x. indexOf as x + 1) ?r). 0 \<le> v" .
  have h: "indexOf (a # as) a = 0" by simp
  have m: "map (indexOf (a # as)) (first_occurrences (a # as)) =
           0 # map (\<lambda>x. indexOf as x + 1) ?r"
    by (simp only: first_occurrences.simps list.map eq h)
  show ?case unfolding m using s nonneg by simp
qed

lemma filter_eq_distinct:
  "distinct xs \<Longrightarrow> k \<in> set xs \<Longrightarrow> filter (\<lambda>x. k = x) xs = [k]"
  by (induction xs) (auto simp: filter_empty_conv)

lemma sort_by_indexOf:
  assumes "distinct ids"
  shows "sort_key (indexOf ord) ids =
           filter (\<lambda>n. n \<notin> set ord) ids @ filter (\<lambda>n. n \<in> set ids) (first_occurrences ord)"
proof (rule properties_for_sort_key)
  let ?A = "filter (\<lambda>n. n \<notin> set ord) ids"
  let ?B = "filter (\<lambda>n. n \<in> set ids) (first_occurrences ord)"
  have "distinct (filter (\<lambda>n. n \<in> set ord) ids)" using assms by simp
  moreover have "distinct ?B" by simp
  moreover have "set (filter (\<lambda>n. n \<in> set ord) ids) = set ?B" by auto
  ultimately have b: "mset (filter (\<lambda>n. n \<in> set ord) ids) = mset ?B"
    using set_eq_iff_mset_eq_distinct by blast
  have p: "mset ids = mset (filter (\<lambda>n. n \<in> set ord) ids) + mset ?A"
    by (simp add: multiset_partition [symmetric])
  show m: "mset (?A @ ?B) = mset ids"
    unfolding mset_append b [symmetric] p by (rule add.commute)
  have d: "distinct (?A @ ?B)" using m assms mset_eq_imp_distinct_iff by blast
  have st: "set (?A @ ?B) = set ids" using m mset_eq_setD by blast
  show "sorted (map (indexOf ord) (?A @ ?B))"
  proof -
    have "map (indexOf ord) ?A = map (\<lambda>n. - 1) ?A"
      by (rule map_cong [OF refl]) (simp add: indexOf_notin)
    then have a: "sorted (map (indexOf ord) ?A)" by (simp add: map_replicate_const)
    have "sorted_wrt (\<lambda>x y. indexOf ord x \<le> indexOf ord y) (first_occurrences ord)"
      using sorted_first_occurrences [of ord] by (simp add: sorted_map)
    then have "sorted_wrt (\<lambda>x y. indexOf ord x \<le> indexOf ord y) ?B" by (rule sorted_wrt_filter)
    then have b: "sorted (map (indexOf ord) ?B)" by (simp add: sorted_map)
    have "\<forall>x \<in> set ?A. \<forall>y \<in> set ?B. indexOf ord x \<le> indexOf ord y"
      using indexOf_ge [of ord] by (auto simp: indexOf_notin [symmetric])
    then show ?thesis using a b by (simp add: sorted_append)
  qed
  fix k
  assume k: "k \<in> set (?A @ ?B)"
  show "filter (\<lambda>x. indexOf ord k = indexOf ord x) (?A @ ?B) =
        filter (\<lambda>x. indexOf ord k = indexOf ord x) ids"
  proof (cases "k \<in> set ord")
    case True
    have "\<And>x. indexOf ord k = indexOf ord x \<longleftrightarrow> k = x"
      using indexOf_inj [OF True] by blast
    then have "filter (\<lambda>x. indexOf ord k = indexOf ord x) (?A @ ?B) = filter (\<lambda>x. k = x) (?A @ ?B)"
      and "filter (\<lambda>x. indexOf ord k = indexOf ord x) ids = filter (\<lambda>x. k = x) ids"
      by simp_all
    moreover have "filter (\<lambda>x. k = x) (?A @ ?B) = [k]" using d k by (rule filter_eq_distinct)
    moreover have "filter (\<lambda>x. k = x) ids = [k]"
      using assms k st by (intro filter_eq_distinct) auto
    ultimately show ?thesis by simp
  next
    case False
    then have "indexOf ord k = - 1" by (simp add: indexOf_notin)
    then have e: "\<And>x. indexOf ord k = indexOf ord x \<longleftrightarrow> x \<notin> set ord"
      using indexOf_notin [of ord] by metis
    have "filter (\<lambda>x. x \<notin> set ord) ?B = []" by (auto simp: filter_empty_conv)
    then show ?thesis unfolding e by simp
  qed
qed

lemma arrangedLeaves_ids:
  assumes "distinct (map (\<lambda>l. node_id (node l)) (map_values (leaves s)))"
  shows "map (\<lambda>l. node_id (node l)) (arrangedLeaves s) =
           filter (\<lambda>n. n \<notin> set (order (layout s)))
             (map (\<lambda>l. node_id (node l)) (map_values (leaves s))) @
           filter (\<lambda>n. n \<in> set (map (\<lambda>l. node_id (node l)) (map_values (leaves s))))
             (first_occurrences (order (layout s)))"
proof -
  let ?f = "\<lambda>l. node_id (node l)"
  have "map ?f (arrangedLeaves s) =
        sort_key (indexOf (order (layout s))) (map ?f (map_values (leaves s)))"
    unfolding arrangedLeaves_def by (rule map_sort_key [of ?f "indexOf (order (layout s))"])
  also have "\<dots> = filter (\<lambda>n. n \<notin> set (order (layout s))) (map ?f (map_values (leaves s))) @
           filter (\<lambda>n. n \<in> set (map ?f (map_values (leaves s))))
             (first_occurrences (order (layout s)))"
    using assms by (rule sort_by_indexOf)
  finally show ?thesis .
qed

lemma calculate1DLinearOffsets_Inr:
  assumes "calculate1DLinearOffsets s = Inr s'"
  shows "\<exists>cur cb. for_each offsets_step (s, (if segments s = [] then None else Some 0), None)
                     (arrangedLeaves s) = Inr (s', cur, cb)"
  using assms unfolding calculate1DLinearOffsets_def and_then_def
  by (auto split: sum.splits)

text \<open>
  Claim C5. When the 1D-offset phase succeeds on leaves with distinct nodes: the leaves
  are visited sorted by their index in the display order (stably, so leaves with equal
  index keep the order of the leaf map); that is, the leaves that the display order
  lacks come first, as the leaf map has them, and then the leaves of the display order
  as the display order lists them (by first occurrence), so that when the display
  order has no duplicates and names every leaf, the visited leaves are the display
  order restricted to the leaves; the block of the \<open>i\<close>-th visited leaf belongs to
  that leaf, starts at the begin of the first segment for \<open>i = 0\<close> and at the end of the
  previous leaf's block otherwise, is as wide as the leaf's units times the total 1D
  space, and has its center in the middle; the leaf's offset is that center; and the
  block is stored in the first segment whose open interval contains the center.
\<close>

theorem calculate1DLinearOffsets_blocks:
  assumes "calculate1DLinearOffsets s = Inr s'"
    and "distinct (map (\<lambda>l. node_id (node l)) (map_values (leaves s)))"
    and "i < length (arrangedLeaves s)"
  shows
    "sorted (map (\<lambda>l. indexOf (order (layout s)) (node_id (node l))) (arrangedLeaves s)) \<and>
     (\<forall>k. filter (\<lambda>l. indexOf (order (layout s)) (node_id (node l)) = k) (arrangedLeaves s) =
          filter (\<lambda>l. indexOf (order (layout s)) (node_id (node l)) = k) (map_values (leaves s))) \<and>
     map (\<lambda>l. node_id (node l)) (arrangedLeaves s) =
       filter (\<lambda>n. n \<notin> set (order (layout s)))
         (map (\<lambda>l. node_id (node l)) (map_values (leaves s))) @
       filter (\<lambda>n. n \<in> set (map (\<lambda>l. node_id (node l)) (map_values (leaves s))))
         (first_occurrences (order (layout s))) \<and>
     (distinct (order (layout s)) \<and>
      set (map (\<lambda>l. node_id (node l)) (map_values (leaves s))) \<subseteq> set (order (layout s)) \<longrightarrow>
      map (\<lambda>l. node_id (node l)) (arrangedLeaves s) =
        filter (\<lambda>n. n \<in> set (map (\<lambda>l. node_id (node l)) (map_values (leaves s))))
          (order (layout s))) \<and>
     (let chain = block_chain (seg_begin (segments s ! 0)) (total1DSpaceAvailable s)
                    (leaf_units (nodeToPosition s) (arrangedLeaves s));
          leaf = node_id (node (arrangedLeaves s ! i));
          width = units (the (map_get (nodeToPosition s) leaf)) * total1DSpaceAvailable s
      in block_node (chain ! i) = leaf \<and>
         block_begin (chain ! i) =
           (if i = 0 then seg_begin (segments s ! 0) else block_end (chain ! (i - 1))) \<and>
         block_end (chain ! i) = block_begin (chain ! i) + width \<and>
         center (chain ! i) = block_begin (chain ! i) + width / 2 \<and>
         (\<exists>p. map_get (nodeToPosition s') leaf = Some p \<and>
              offset p = Some (center (chain ! i))) \<and>
         (\<exists>k < length (segments s').
            chain ! i \<in> set (blocks (segments s' ! k)) \<and>
            seg_begin (segments s' ! k) < center (chain ! i) \<and>
            center (chain ! i) < seg_end (segments s' ! k) \<and>
            find_segment (segments s') (center (chain ! i)) = Some k))"
proof -
  let ?key = "\<lambda>l. indexOf (order (layout s)) (node_id (node l))"
  let ?st = "(s, (if segments s = [] then None else Some 0), None :: SpaceBlock option)"
  let ?us = "leaf_units (nodeToPosition s) (arrangedLeaves s)"
  let ?chain = "block_chain (seg_begin (segments s ! 0)) (total1DSpaceAvailable s) ?us"
  let ?leaf = "node_id (node (arrangedLeaves s ! i))"
  from calculate1DLinearOffsets_Inr [OF assms(1)] obtain cur cb where
    loop: "for_each offsets_step ?st (arrangedLeaves s) = Inr (s', cur, cb)" by blast
  have ne: "segments s \<noteq> []"
  proof
    assume "segments s = []"
    then have "arrangedLeaves s = []" using loop offsets_loop_needs_segment by simp
    then show False using assms(3) by simp
  qed
  have start: "loop_start ?st = seg_begin (segments s ! 0)"
    using ne by (simp add: loop_start_def)
  have sorted: "sorted (map ?key (arrangedLeaves s))"
    by (simp add: arrangedLeaves_def)
  have stable: "\<forall>k. filter (\<lambda>l. ?key l = k) (arrangedLeaves s) =
                    filter (\<lambda>l. ?key l = k) (map_values (leaves s))"
    by (simp add: arrangedLeaves_def sort_key_stable)
  have d: "distinct (map (\<lambda>l. node_id (node l)) (arrangedLeaves s))"
    using assms(2) by (rule distinct_ids_arrangedLeaves)
  let ?ids = "map (\<lambda>l. node_id (node l)) (map_values (leaves s))"
  have visit: "map (\<lambda>l. node_id (node l)) (arrangedLeaves s) =
       filter (\<lambda>n. n \<notin> set (order (layout s))) ?ids @
       filter (\<lambda>n. n \<in> set ?ids) (first_occurrences (order (layout s)))"
    using assms(2) by (rule arrangedLeaves_ids)
  have inorder: "distinct (order (layout s)) \<and> set ?ids \<subseteq> set (order (layout s)) \<longrightarrow>
      map (\<lambda>l. node_id (node l)) (arrangedLeaves s) =
        filter (\<lambda>n. n \<in> set ?ids) (order (layout s))"
  proof
    assume a: "distinct (order (layout s)) \<and> set ?ids \<subseteq> set (order (layout s))"
    then have "filter (\<lambda>n. n \<notin> set (order (layout s))) ?ids = []"
      unfolding filter_empty_conv by blast
    moreover have "first_occurrences (order (layout s)) = order (layout s)"
      using a by (simp add: first_occurrences_distinct)
    ultimately show "map (\<lambda>l. node_id (node l)) (arrangedLeaves s) =
        filter (\<lambda>n. n \<in> set ?ids) (order (layout s))"
      using visit by simp
  qed
  have i: "i < length ?us" using assms(3) by (simp add: leaf_units_def)
  have ui: "?us ! i = (?leaf, units (the (map_get (nodeToPosition s) ?leaf)))"
    using assms(3) by (simp add: leaf_units_def)
  have nth: "?chain ! i = new_SpaceBlock ?leaf
               (seg_begin (segments s ! 0) + total1DSpaceAvailable s * sum_list (map snd (take i ?us)))
               (units (the (map_get (nodeToPosition s) ?leaf)) * total1DSpaceAvailable s)"
    using block_chain_nth [OF i] ui by simp
  have beg: "block_begin (?chain ! i) =
               (if i = 0 then seg_begin (segments s ! 0) else block_end (?chain ! (i - 1)))"
  proof (cases i)
    case 0
    then show ?thesis using nth by simp
  next
    case (Suc j)
    then have "Suc j < length ?us" using i by simp
    then show ?thesis using block_chain_contiguous [of j ?us] Suc by simp
  qed
  from offsets_loop_chain [OF loop d assms(3)] obtain p k where
    p: "map_get (nodeToPosition s') ?leaf = Some p" "offset p = Some (center (?chain ! i))"
    and k: "find_segment (segments s) (center (?chain ! i)) = Some k"
           "?chain ! i \<in> set (blocks (segments s' ! k))"
    unfolding start by auto
  have "offsets_frame s (s', cur, cb)"
    using loop by (rule offsets_frame_loop) (rule offsets_frame_refl)
  then have geo: "geometry (segments s') = geometry (segments s)"
    by (simp add: offsets_frame_def)
  have fk: "find_segment (segments s') (center (?chain ! i)) = Some k"
    using find_segment_geometry [OF geo] k(1) by simp
  have inside: "k < length (segments s') \<and> contains1DPoint (segments s' ! k) (center (?chain ! i))"
    using find_segment_Some [OF fk] .
  have seg: "\<exists>k < length (segments s').
            ?chain ! i \<in> set (blocks (segments s' ! k)) \<and>
            seg_begin (segments s' ! k) < center (?chain ! i) \<and>
            center (?chain ! i) < seg_end (segments s' ! k) \<and>
            find_segment (segments s') (center (?chain ! i)) = Some k"
    using inside k(2) fk unfolding contains1DPoint_def by blast
  have pp: "\<exists>p. map_get (nodeToPosition s') ?leaf = Some p \<and> offset p = Some (center (?chain ! i))"
    using p by blast
  have b1: "block_node (?chain ! i) = ?leaf" using nth by simp
  have b2: "block_end (?chain ! i) =
            block_begin (?chain ! i) + units (the (map_get (nodeToPosition s) ?leaf)) * total1DSpaceAvailable s"
    using nth by simp
  have b3: "center (?chain ! i) =
            block_begin (?chain ! i) + units (the (map_get (nodeToPosition s) ?leaf)) * total1DSpaceAvailable s / 2"
    using nth by simp
  show ?thesis
    unfolding Let_def using sorted stable visit inorder b1 beg b2 b3 pp seg by blast
qed





section \<open>Block centers on segment boundaries\<close>


lemma new_NodeAllocation_chained:
  assumes "new_NodeAllocation lay lns = Inr s0"
  shows "chained 0 (segments s0)"
proof -
  obtain pos lvs mids where c: "categorize ([], [], []) (map_values lns) = (pos, lvs, mids)"
    by (cases "categorize ([], [], []) (map_values lns)") auto
  have "\<exists>cs. segments s0 = lay_out 0 cs"
    using assms unfolding new_NodeAllocation_eq c by auto
  then show ?thesis using chained_lay_out by auto
qed

lemma convert_frame:
  assumes "convertTotalStemLengthsToUnits s0 = Inr s"
  shows "\<exists>pos. s = s0\<lparr>nodeToPosition := pos\<rparr>"
  using assms unfolding convertTotalStemLengthsToUnits_def and_then_def
  by (auto split: sum.splits)

lemma geometry_nth:
  assumes "geometry a = geometry b" and "k < length a"
  shows "seg_begin (a ! k) = seg_begin (b ! k) \<and> seg_end (a ! k) = seg_end (b ! k)"
proof -
  have "k < length b" using assms length_geometry_eq by metis
  moreover have "geometry a ! k = geometry b ! k" using assms(1) by simp
  ultimately show ?thesis using assms(2) by (simp add: geometry_def)
qed

lemma process_offsets_fail:
  "convertTotalStemLengthsToUnits s0 = Inr s \<Longrightarrow> calculate1DLinearOffsets s = Inl e \<Longrightarrow>
   process m s0 = Inl e"
  by (simp add: process_def and_then_def)

text \<open>
  Claim C10. Take an allocation as constructed and converted to units, and the block
  that the 1D-offset loop constructs for a leaf after the leaves before it were placed.
  If the block's center lies strictly inside the interval of a segment, then it lies in
  no other segment's interval and the iteration assigns the block to that segment: it
  succeeds, the block becomes the last block of that segment, the blocks of the other
  segments stay as they were, and whenever the phase completes the block is among the
  blocks of that segment, whose interval contains its center. If the center
  equals the begin or the end of any segment (0 and the total perimeter length are the
  begin of the first and the end of the last one), no segment is found, the iteration
  raises a type error on the missing segment, and the phase and the whole run fail.
\<close>

theorem boundary_center_aborts:
  assumes "new_NodeAllocation lay lns = Inr s0"
    and "convertTotalStemLengthsToUnits s0 = Inr s"
    and "arrangedLeaves s = pre @ leaf # post"
    and "for_each offsets_step (s, (if segments s = [] then None else Some 0), None) pre = Inr st"
    and "next_block st leaf = Inr B"
  shows
    "(\<forall>k < length (segments s).
        seg_begin (segments s ! k) < center B \<and> center B < seg_end (segments s ! k) \<longrightarrow>
        (\<forall>j < length (segments s). j \<noteq> k \<longrightarrow> \<not> contains1DPoint (segments s ! j) (center B)) \<and>
        offsets_step st leaf =
          Inr ((fst st)\<lparr>nodeToPosition :=
                        set_offset (nodeToPosition (fst st)) (block_node B) (center B),
                      segments := push_block (segments (fst st)) k B\<rparr>, Some k, Some B) \<and>
        (\<exists>st'. offsets_step st leaf = Inr st' \<and>
           length (segments (fst st')) = length (segments s) \<and>
           blocks (segments (fst st') ! k) = blocks (segments (fst st) ! k) @ [B] \<and>
           B \<in> set (blocks (segments (fst st') ! k)) \<and>
           (\<forall>j < length (segments s). j \<noteq> k \<longrightarrow>
              blocks (segments (fst st') ! j) = blocks (segments (fst st) ! j))) \<and>
        (\<forall>s'. calculate1DLinearOffsets s = Inr s' \<longrightarrow>
           k < length (segments s') \<and>
           B \<in> set (blocks (segments s' ! k)) \<and>
           seg_begin (segments s' ! k) < center B \<and> center B < seg_end (segments s' ! k))) \<and>
     ((\<exists>k < length (segments s).
         center B = seg_begin (segments s ! k) \<or> center B = seg_end (segments s ! k)) \<longrightarrow>
        find_segment (segments (fst st)) (center B) = None \<and>
        offsets_step st leaf = Inl TypeError \<and>
        calculate1DLinearOffsets s = Inl TypeError \<and>
        (\<forall>m. process m s0 = Inl TypeError))"
proof -
  let ?init = "(s, (if segments s = [] then None else Some 0), None :: SpaceBlock option)"
  obtain s1 cur cb where st: "st = (s1, cur, cb)" by (cases st) auto
  have seg0: "segments s = segments s0" using convert_frame [OF assms(2)] by auto
  have ch: "chained 0 (segments s)" using new_NodeAllocation_chained [OF assms(1)] seg0 by simp
  have "offsets_frame s st"
    using assms(4) by (rule offsets_frame_loop) (rule offsets_frame_refl)
  then have geo: "geometry (segments s1) = geometry (segments s)"
    by (simp add: offsets_frame_def st)
  have fs: "find_segment (segments s1) (center B) = find_segment (segments s) (center B)"
    by (rule find_segment_geometry [OF geo])
  have step: "offsets_step st leaf =
                (case find_segment (segments s) (center B) of
                   None \<Rightarrow> Inl TypeError
                 | Some k \<Rightarrow>
                     Inr (s1\<lparr>nodeToPosition :=
                               set_offset (nodeToPosition s1) (block_node B) (center B),
                             segments := push_block (segments s1) k B\<rparr>, Some k, Some B))"
    using assms(5) fs unfolding st offsets_step_def and_then_def by simp
  have len: "length (segments s1) = length (segments s)"
    using geo by (rule length_geometry_eq)
  have inside: "\<forall>k < length (segments s).
        seg_begin (segments s ! k) < center B \<and> center B < seg_end (segments s ! k) \<longrightarrow>
        (\<forall>j < length (segments s). j \<noteq> k \<longrightarrow> \<not> contains1DPoint (segments s ! j) (center B)) \<and>
        offsets_step st leaf =
          Inr ((fst st)\<lparr>nodeToPosition :=
                        set_offset (nodeToPosition (fst st)) (block_node B) (center B),
                      segments := push_block (segments (fst st)) k B\<rparr>, Some k, Some B) \<and>
        (\<exists>st'. offsets_step st leaf = Inr st' \<and>
           length (segments (fst st')) = length (segments s) \<and>
           blocks (segments (fst st') ! k) = blocks (segments (fst st) ! k) @ [B] \<and>
           B \<in> set (blocks (segments (fst st') ! k)) \<and>
           (\<forall>j < length (segments s). j \<noteq> k \<longrightarrow>
              blocks (segments (fst st') ! j) = blocks (segments (fst st) ! j))) \<and>
        (\<forall>s'. calculate1DLinearOffsets s = Inr s' \<longrightarrow>
           k < length (segments s') \<and>
           B \<in> set (blocks (segments s' ! k)) \<and>
           seg_begin (segments s' ! k) < center B \<and> center B < seg_end (segments s' ! k))"
  proof (intro allI impI)
    fix k
    assume k: "k < length (segments s)"
      and c: "seg_begin (segments s ! k) < center B \<and> center B < seg_end (segments s ! k)"
    then have ck: "contains1DPoint (segments s ! k) (center B)" by (simp add: contains1DPoint_def)
    have fk: "find_segment (segments s) (center B) = Some k"
      using find_segment_inside [OF ch k ck] .
    have uniq: "\<forall>j < length (segments s). j \<noteq> k \<longrightarrow> \<not> contains1DPoint (segments s ! j) (center B)"
    proof (intro allI impI notI)
      fix j assume j: "j < length (segments s)" and "j \<noteq> k"
        and cj: "contains1DPoint (segments s ! j) (center B)"
      have "find_segment (segments s) (center B) = Some j"
        using find_segment_inside [OF ch j cj] .
      then show False using fk \<open>j \<noteq> k\<close> by simp
    qed
    let ?s2 = "s1\<lparr>nodeToPosition := set_offset (nodeToPosition s1) (block_node B) (center B),
                    segments := push_block (segments s1) k B\<rparr>"
    have eq: "offsets_step st leaf = Inr (?s2, Some k, Some B)"
      using step fk by simp
    have k1: "k < length (segments s1)" using k len by simp
    have last: "blocks (segments ?s2 ! k) = blocks (segments s1 ! k) @ [B]"
      using blocks_push_block [OF k1, of k B] by simp
    have others: "\<forall>j < length (segments s). j \<noteq> k \<longrightarrow>
                    blocks (segments ?s2 ! j) = blocks (segments s1 ! j)"
      using blocks_push_block [of _ "segments s1" k B] len by simp
    have stepped: "\<exists>st'. offsets_step st leaf = Inr st' \<and>
           length (segments (fst st')) = length (segments s) \<and>
           blocks (segments (fst st') ! k) = blocks (segments (fst st) ! k) @ [B] \<and>
           B \<in> set (blocks (segments (fst st') ! k)) \<and>
           (\<forall>j < length (segments s). j \<noteq> k \<longrightarrow>
              blocks (segments (fst st') ! j) = blocks (segments (fst st) ! j))"
    proof (intro exI conjI)
      show "offsets_step st leaf = Inr (?s2, Some k, Some B)" by (rule eq)
      show "length (segments (fst (?s2, Some k, Some B))) = length (segments s)"
        using len by simp
      show "blocks (segments (fst (?s2, Some k, Some B)) ! k) =
            blocks (segments (fst st) ! k) @ [B]"
        using last by (simp add: st)
      show "B \<in> set (blocks (segments (fst (?s2, Some k, Some B)) ! k))"
        using last by simp
      show "\<forall>j < length (segments s). j \<noteq> k \<longrightarrow>
              blocks (segments (fst (?s2, Some k, Some B)) ! j) = blocks (segments (fst st) ! j)"
        using others by (simp add: st)
    qed
    have final: "\<forall>s'. calculate1DLinearOffsets s = Inr s' \<longrightarrow>
           k < length (segments s') \<and>
           B \<in> set (blocks (segments s' ! k)) \<and>
           seg_begin (segments s' ! k) < center B \<and> center B < seg_end (segments s' ! k)"
    proof (intro allI impI)
      fix s'
      assume "calculate1DLinearOffsets s = Inr s'"
      then obtain cur' cb' where
        "for_each offsets_step ?init (arrangedLeaves s) = Inr (s', cur', cb')"
        using calculate1DLinearOffsets_Inr by blast
      then have "for_each offsets_step ?init (pre @ [leaf] @ post) = Inr (s', cur', cb')"
        using assms(3) by simp
      then have rest: "for_each offsets_step (?s2, Some k, Some B) post = Inr (s', cur', cb')"
        using assms(4) eq by (simp add: for_each_append)
      have "offsets_frame ?s2 (s', cur', cb')"
        using rest by (rule offsets_frame_loop) (rule offsets_frame_refl)
      then have g2: "geometry (segments s') = geometry (segments ?s2)"
        and sub: "\<forall>j < length (segments ?s2).
                   set (blocks (segments ?s2 ! j)) \<subseteq> set (blocks (segments s' ! j))"
        by (simp_all add: offsets_frame_def)
      have g3: "geometry (segments s') = geometry (segments s)"
        using g2 geo by (simp add: geometry_push_block)
      have l3: "length (segments s') = length (segments s)"
        using g3 by (rule length_geometry_eq)
      have k3: "k < length (segments s')" using k l3 by simp
      have "B \<in> set (blocks (segments ?s2 ! k))" using last by simp
      moreover have "k < length (segments ?s2)" using k1 by simp
      ultimately have mem: "B \<in> set (blocks (segments s' ! k))" using sub by blast
      have "seg_begin (segments s' ! k) = seg_begin (segments s ! k) \<and>
            seg_end (segments s' ! k) = seg_end (segments s ! k)"
        using geometry_nth [OF g3 k3] .
      then show "k < length (segments s') \<and>
           B \<in> set (blocks (segments s' ! k)) \<and>
           seg_begin (segments s' ! k) < center B \<and> center B < seg_end (segments s' ! k)"
        using k3 mem c by simp
    qed
    have first: "offsets_step st leaf =
          Inr ((fst st)\<lparr>nodeToPosition :=
                        set_offset (nodeToPosition (fst st)) (block_node B) (center B),
                      segments := push_block (segments (fst st)) k B\<rparr>, Some k, Some B)"
      using eq by (simp add: st)
    show "(\<forall>j < length (segments s). j \<noteq> k \<longrightarrow> \<not> contains1DPoint (segments s ! j) (center B)) \<and>
        offsets_step st leaf =
          Inr ((fst st)\<lparr>nodeToPosition :=
                        set_offset (nodeToPosition (fst st)) (block_node B) (center B),
                      segments := push_block (segments (fst st)) k B\<rparr>, Some k, Some B) \<and>
        (\<exists>st'. offsets_step st leaf = Inr st' \<and>
           length (segments (fst st')) = length (segments s) \<and>
           blocks (segments (fst st') ! k) = blocks (segments (fst st) ! k) @ [B] \<and>
           B \<in> set (blocks (segments (fst st') ! k)) \<and>
           (\<forall>j < length (segments s). j \<noteq> k \<longrightarrow>
              blocks (segments (fst st') ! j) = blocks (segments (fst st) ! j))) \<and>
        (\<forall>s'. calculate1DLinearOffsets s = Inr s' \<longrightarrow>
           k < length (segments s') \<and>
           B \<in> set (blocks (segments s' ! k)) \<and>
           seg_begin (segments s' ! k) < center B \<and> center B < seg_end (segments s' ! k))"
      using uniq first stepped final by blast
  qed
  have boundary: "(\<exists>k < length (segments s).
         center B = seg_begin (segments s ! k) \<or> center B = seg_end (segments s ! k)) \<longrightarrow>
        find_segment (segments (fst st)) (center B) = None \<and>
        offsets_step st leaf = Inl TypeError \<and>
        calculate1DLinearOffsets s = Inl TypeError \<and>
        (\<forall>m. process m s0 = Inl TypeError)"
  proof
    assume "\<exists>k < length (segments s).
         center B = seg_begin (segments s ! k) \<or> center B = seg_end (segments s ! k)"
    then obtain k where k: "k < length (segments s)"
      and b: "center B = seg_begin (segments s ! k) \<or> center B = seg_end (segments s ! k)"
      by blast
    have fn: "find_segment (segments s) (center B) = None"
      using find_segment_boundary [OF ch k b] .
    then have sf: "offsets_step st leaf = Inl TypeError" using step by simp
    have "for_each offsets_step ?init (pre @ leaf # post) = Inl TypeError"
      using assms(4) sf by (simp add: for_each_append)
    then have cf: "calculate1DLinearOffsets s = Inl TypeError"
      using assms(3) by (simp add: calculate1DLinearOffsets_def and_then_def)
    have "\<forall>m. process m s0 = Inl TypeError"
      using process_offsets_fail [OF assms(2) cf] by simp
    then show "find_segment (segments (fst st)) (center B) = None \<and>
        offsets_step st leaf = Inl TypeError \<and>
        calculate1DLinearOffsets s = Inl TypeError \<and>
        (\<forall>m. process m s0 = Inl TypeError)"
      using fn fs sf cf by (simp add: st)
  qed
  show ?thesis using inside boundary by blast
qed



section \<open>Writing positions: the midpoint and re-anchoring phases\<close>


lemma validateStat_finite [simp]: "validateStat (Some v) False = Inr v"
  by (simp add: validateStat_def validateNumber_def)

lemma validateStat_aboveZero: "validateStat (Some v) True = (if v \<le> 0 then Inl ValidationError else Inr v)"
  by (simp add: validateStat_def validateNumber_def)

lemma write_xy_Some:
  "write_xy pos n (Some pt) =
     (case map_get pos n of
        None \<Rightarrow> Inl TypeError
      | Some p \<Rightarrow> Inr (map_set pos n (p\<lparr>pos_x := fst pt, pos_y := snd pt\<rparr>)))"
  by (simp add: write_xy_def and_then_def split: option.splits)

lemma write_xy_None: "write_xy pos n None = Inl ValidationError"
  by (simp add: write_xy_def and_then_def validateStat_def validateNumber_def)

lemma write_xy_Inr:
  assumes "write_xy pos n pt = Inr pos'"
  shows "\<exists>p v. pt = Some v \<and> map_get pos n = Some p \<and>
               pos' = map_set pos n (p\<lparr>pos_x := fst v, pos_y := snd v\<rparr>)"
proof (cases pt)
  case None
  then show ?thesis using assms by (simp add: write_xy_None)
next
  case (Some v)
  then show ?thesis using assms by (auto simp: write_xy_Some split: option.splits)
qed

lemma write_xy_other:
  assumes "write_xy pos n pt = Inr pos'" and "m \<noteq> n"
  shows "map_get pos' m = map_get pos m"
  using write_xy_Inr [OF assms(1)] assms(2) by (auto simp: map_get_map_set)

lemma midpoint_step_other:
  assumes "midpoint_step s placement pos l = Inr pos'" and "m \<noteq> node_id (node l)"
  shows "map_get pos' m = map_get pos m"
  using assms unfolding midpoint_step_def Let_def and_then_def
  by (auto split: if_splits option.splits sum.splits placementMode.splits
      dest: write_xy_other)

lemma constrain_step_other:
  assumes "constrain_step s pos l = Inr pos'" and "m \<noteq> node_id (node l)"
  shows "map_get pos' m = map_get pos m"
  using assms unfolding constrain_step_def Let_def
  by (auto split: option.splits dest: write_xy_other)

lemma for_each_other:
  assumes "for_each f pos ls = Inr pos'"
    and "\<And>a l b. f a l = Inr b \<Longrightarrow> m \<noteq> key l \<Longrightarrow> map_get b m = map_get a m"
    and "m \<notin> key ` set ls"
  shows "map_get pos' m = map_get pos m"
  using assms(1,3)
proof (induction ls arbitrary: pos)
  case Nil
  then show ?case by simp
next
  case (Cons l ls)
  from Cons.prems(1) obtain pos1 where s1: "f pos l = Inr pos1"
    and r: "for_each f pos1 ls = Inr pos'"
    by (auto split: sum.splits)
  have "m \<noteq> key l" using Cons.prems(2) by auto
  then have "map_get pos1 m = map_get pos m" using assms(2) [OF s1] by simp
  moreover have "map_get pos' m = map_get pos1 m" using Cons.IH [OF r] Cons.prems(2) by simp
  ultimately show ?case by simp
qed

lemma midpoint_step_root:
  assumes "midpoint_step s placement pos l = Inr pos'"
    and "map_get (layoutNodes s) (parentId (node l)) = None"
  shows "\<exists>p. map_get pos' (node_id (node l)) = Some p \<and>
             pos_x p = svgWidth (layout s) / 2 \<and>
             pos_y p = svgDistanceFromEdge (layout s) + ownDiameter (stem l) / 2"
  using assms unfolding midpoint_step_def Let_def
  by (auto simp: write_xy_Some getRootPosition_def map_get_map_set split: option.splits)

lemma midpoints_root_anchor:
  assumes "for_each (midpoint_step s placement) pos (map_values mids) = Inr pos'"
    and "distinct (map (\<lambda>l. node_id (node l)) (map_values mids))"
    and "(k, l) \<in> set mids"
    and "map_get (layoutNodes s) (parentId (node l)) = None"
  shows "\<exists>p. map_get pos' (node_id (node l)) = Some p \<and>
             pos_x p = svgWidth (layout s) / 2 \<and>
             pos_y p = svgDistanceFromEdge (layout s) + ownDiameter (stem l) / 2"
proof -
  have "l \<in> set (map_values mids)" using assms(3) by (force simp: map_values_def)
  then obtain pre post where sp: "map_values mids = pre @ l # post"
    by (auto simp: in_set_conv_decomp)
  from assms(1) obtain pos1 pos2 where
    a: "for_each (midpoint_step s placement) pos pre = Inr pos1" and
    b: "midpoint_step s placement pos1 l = Inr pos2" and
    c: "for_each (midpoint_step s placement) pos2 post = Inr pos'"
    unfolding sp by (auto simp: for_each_append split: sum.splits)
  have "node_id (node l) \<notin> (\<lambda>l. node_id (node l)) ` set post"
    using assms(2) unfolding sp by auto
  then have "map_get pos' (node_id (node l)) = map_get pos2 (node_id (node l))"
    using for_each_other [OF c, of "node_id (node l)" "\<lambda>l. node_id (node l)"] midpoint_step_other
    by blast
  then show ?thesis using midpoint_step_root [OF b assms(4)] by simp
qed

section \<open>Well-formed allocations and the frame of each phase\<close>


lemma set_map_set: "set (map_set m k v) \<subseteq> insert (k, v) (set m)"
proof (induction m)
  case Nil
  then show ?case by simp
next
  case (Cons a m)
  show ?case
  proof (cases "fst a = k")
    case True
    then show ?thesis by (cases a) auto
  next
    case False
    then show ?thesis using Cons by (cases a) auto
  qed
qed

lemma fst_set_map_set: "fst ` set (map_set m k v) = insert k (fst ` set m)"
proof -
  have "set (map fst (map_set m k v)) = insert k (set (map fst m))"
    unfolding map_fst_map_set by auto
  then show ?thesis by simp
qed

lemma distinct_map_set: "distinct (map fst m) \<Longrightarrow> distinct (map fst (map_set m k v))"
  by (simp add: map_fst_map_set)

lemma list_all_map_set:
  "list_all P m \<Longrightarrow> P (k, v) \<Longrightarrow> list_all P (map_set m k v)"
  using set_map_set [of m k v] by (auto simp: list_all_iff)

lemma categorize_wf:
  assumes "categorize (pos, lvs, mids) ns = (pos', lvs', mids')"
    and "distinct (map (\<lambda>l. node_id (node l)) ns)"
    and "(fst ` set lvs \<union> fst ` set mids) \<inter> (\<lambda>l. node_id (node l)) ` set ns = {}"
    and "wf_maps lvs mids"
  shows "wf_maps lvs' mids'"
  using assms
proof (induction ns arbitrary: pos lvs mids)
  case Nil
  then show ?case by simp
next
  case (Cons n ns)
  let ?k = "node_id (node n)"
  have fresh: "?k \<notin> fst ` set lvs" "?k \<notin> fst ` set mids" using Cons.prems(3) by auto
  have d: "distinct (map (\<lambda>l. node_id (node l)) ns)" and nk: "?k \<notin> (\<lambda>l. node_id (node l)) ` set ns"
    using Cons.prems(2) by auto
  show ?case
  proof (cases "children (node n) \<noteq> []")
    case True
    then have c: "categorize (map_set pos ?k initial_position, lvs, map_set mids ?k n) ns =
                  (pos', lvs', mids')"
      using Cons.prems(1) by (simp add: Let_def)
    have w: "wf_maps lvs (map_set mids ?k n)"
      using Cons.prems(4) fresh unfolding wf_maps_def
      by (auto simp: distinct_map_set fst_set_map_set intro: list_all_map_set)
    have i: "(fst ` set lvs \<union> fst ` set (map_set mids ?k n)) \<inter>
             (\<lambda>l. node_id (node l)) ` set ns = {}"
      using Cons.prems(3) nk by (auto simp: fst_set_map_set)
    show ?thesis using Cons.IH [OF c d i w] .
  next
    case False
    then have c: "categorize (map_set pos ?k initial_position, map_set lvs ?k n, mids) ns =
                  (pos', lvs', mids')"
      using Cons.prems(1) by (simp add: Let_def)
    have w: "wf_maps (map_set lvs ?k n) mids"
      using Cons.prems(4) fresh unfolding wf_maps_def
      by (auto simp: distinct_map_set fst_set_map_set intro: list_all_map_set)
    have i: "(fst ` set (map_set lvs ?k n) \<union> fst ` set mids) \<inter>
             (\<lambda>l. node_id (node l)) ` set ns = {}"
      using Cons.prems(3) nk by (auto simp: fst_set_map_set)
    show ?thesis using Cons.IH [OF c d i w] .
  qed
qed

lemma new_NodeAllocation_fields:
  assumes "new_NodeAllocation lay lns = Inr s"
  shows "layout s = lay \<and> layoutNodes s = lns \<and>
         categorize ([], [], []) (map_values lns) = (nodeToPosition s, leaves s, midPoints s)"
proof -
  obtain pos lvs mids where c: "categorize ([], [], []) (map_values lns) = (pos, lvs, mids)"
    by (cases "categorize ([], [], []) (map_values lns)") auto
  show ?thesis using assms unfolding new_NodeAllocation_eq c by auto
qed

lemma new_NodeAllocation_well_formed:
  assumes "new_NodeAllocation lay lns = Inr s"
    and "distinct (map (\<lambda>l. node_id (node l)) (map_values lns))"
  shows "well_formed s"
proof -
  have c: "categorize ([], [], []) (map_values lns) = (nodeToPosition s, leaves s, midPoints s)"
    using new_NodeAllocation_fields [OF assms(1)] by simp
  have "wf_maps (leaves s) (midPoints s)"
    by (rule categorize_wf [OF c assms(2)]) (simp_all add: wf_maps_def)
  then show ?thesis by (simp add: well_formed_def)
qed

lemma well_formed_ids:
  assumes "well_formed s"
  shows "map (\<lambda>l. node_id (node l)) (map_values (leaves s)) = map fst (leaves s)"
    and "map (\<lambda>l. node_id (node l)) (map_values (midPoints s)) = map fst (midPoints s)"
  using assms by (auto simp: well_formed_def wf_maps_def map_values_def list_all_iff)

lemma well_formed_static: "static_part s = static_part s' \<Longrightarrow> well_formed s \<Longrightarrow> well_formed s'"
  by (simp add: static_part_def well_formed_def)

text \<open>What the phases leave unchanged.\<close>

lemma static_update_positions [simp]: "static_part (s\<lparr>nodeToPosition := pos\<rparr>) = static_part s"
  by (simp add: static_part_def)

lemma convert_static:
  "convertTotalStemLengthsToUnits s = Inr s' \<Longrightarrow> static_part s' = static_part s"
  using convert_frame by fastforce

lemma convert_segments:
  "convertTotalStemLengthsToUnits s = Inr s' \<Longrightarrow> segments s' = segments s"
  using convert_frame by fastforce

lemma offsets_step_static:
  assumes "offsets_step st l = Inr st1"
  shows "static_part (fst st1) = static_part (fst st)"
  using offsets_step_Inr [OF assms] by (auto simp: static_part_def)

lemma offsets_static:
  assumes "calculate1DLinearOffsets s = Inr s'"
  shows "static_part s' = static_part s"
proof -
  from calculate1DLinearOffsets_Inr [OF assms] obtain cur cb where
    loop: "for_each offsets_step (s, (if segments s = [] then None else Some 0), None)
             (arrangedLeaves s) = Inr (s', cur, cb)" by blast
  have "static_part (fst (s', cur, cb)) = static_part s"
    using loop
  proof (rule for_each_invariant)
    show "static_part (fst (s, (if segments s = [] then None else Some 0), None :: SpaceBlock option))
          = static_part s" by simp
  next
    fix a b c
    assume "static_part (fst a) = static_part s" and "offsets_step a b = Inr c"
    then show "static_part (fst c) = static_part s" using offsets_step_static by metis
  qed
  then show ?thesis by simp
qed

lemma leaf2D_static:
  "calculate2DLeafCoordinates s = Inr s' \<Longrightarrow> static_part s' = static_part s"
  unfolding calculate2DLeafCoordinates_def and_then_def by (auto split: sum.splits)

lemma midpoints_Inr:
  "calculate2DMidpointCoordinates placement s = Inr s' \<Longrightarrow>
   \<exists>pos. for_each (midpoint_step s placement) (nodeToPosition s) (map_values (midPoints s)) = Inr pos
         \<and> s' = s\<lparr>nodeToPosition := pos\<rparr>"
  unfolding calculate2DMidpointCoordinates_def and_then_def by (auto split: sum.splits)

lemma constrain_Inr:
  "constrain2DLeafCoordinates s = Inr s' \<Longrightarrow>
   \<exists>pos. for_each (constrain_step s) (nodeToPosition s) (map_values (leaves s)) = Inr pos
         \<and> s' = s\<lparr>nodeToPosition := pos\<rparr>"
  unfolding constrain2DLeafCoordinates_def and_then_def by (auto split: sum.splits)

lemma process_Inr:
  assumes "process placement s0 = Inr s'"
  shows "\<exists>s1 s2 s3 s4.
           convertTotalStemLengthsToUnits s0 = Inr s1 \<and> calculate1DLinearOffsets s1 = Inr s2 \<and>
           calculate2DLeafCoordinates s2 = Inr s3 \<and>
           calculate2DMidpointCoordinates placement s3 = Inr s4 \<and>
           (if placement = LENGTH_CONSTRAINED then constrain2DLeafCoordinates s4 else Inr s4) = Inr s'"
  using assms unfolding process_def and_then_def by (auto split: sum.splits)

section \<open>Root midpoints and midpoints without leaves\<close>


lemma constrain_other:
  assumes "constrain2DLeafCoordinates s = Inr s'"
    and "m \<notin> (\<lambda>l. node_id (node l)) ` set (map_values (leaves s))"
  shows "map_get (nodeToPosition s') m = map_get (nodeToPosition s) m"
proof -
  from constrain_Inr [OF assms(1)] obtain pos where
    loop: "for_each (constrain_step s) (nodeToPosition s) (map_values (leaves s)) = Inr pos"
    and s': "s' = s\<lparr>nodeToPosition := pos\<rparr>" by blast
  have "map_get pos m = map_get (nodeToPosition s) m"
    using for_each_other [OF loop, of m "\<lambda>l. node_id (node l)"] constrain_step_other assms(2)
    by blast
  then show ?thesis by (simp add: s')
qed

lemma well_formed_midpoint_not_leaf:
  assumes "well_formed s" and "(k, m) \<in> set (midPoints s)"
  shows "node_id (node m) \<notin> (\<lambda>l. node_id (node l)) ` set (map_values (leaves s))"
proof -
  have km: "node_id (node m) = k" using assms by (auto simp: well_formed_def wf_maps_def list_all_iff)
  have "k \<in> fst ` set (midPoints s)" using assms(2) by force
  then have "k \<notin> fst ` set (leaves s)" using assms(1) by (auto simp: well_formed_def wf_maps_def)
  moreover have "(\<lambda>l. node_id (node l)) ` set (map_values (leaves s)) = fst ` set (leaves s)"
    using well_formed_ids(1) [OF assms(1)] by (metis list.set_map)
  ultimately show ?thesis using km by simp
qed

text \<open>
  Claim C6. In an allocation constructed from layout nodes with distinct nodes, a
  midpoint whose parent is not among the layout nodes ends a successful run, in either
  placement mode, at the top-center anchor: x is half the width and y is the edge
  distance plus half of its own scaled diameter.
\<close>

theorem root_midpoint_anchor:
  assumes "new_NodeAllocation lay lns = Inr s0"
    and "distinct (map (\<lambda>l. node_id (node l)) (map_values lns))"
    and "process placement s0 = Inr s'"
    and "(k, m) \<in> set (midPoints s0)"
    and "map_get lns (parentId (node m)) = None"
  shows "\<exists>p. map_get (nodeToPosition s') (node_id (node m)) = Some p \<and>
             pos_x p = svgWidth lay / 2 \<and>
             pos_y p = svgDistanceFromEdge lay + ownDiameter (stem m) / 2"
proof -
  from process_Inr [OF assms(3)] obtain s1 s2 s3 s4 where
    p1: "convertTotalStemLengthsToUnits s0 = Inr s1" and
    p2: "calculate1DLinearOffsets s1 = Inr s2" and
    p3: "calculate2DLeafCoordinates s2 = Inr s3" and
    p4: "calculate2DMidpointCoordinates placement s3 = Inr s4" and
    p5: "(if placement = LENGTH_CONSTRAINED then constrain2DLeafCoordinates s4 else Inr s4) = Inr s'"
    by blast
  have st3: "static_part s3 = static_part s0"
    using convert_static [OF p1] offsets_static [OF p2] leaf2D_static [OF p3] by simp
  have f0: "layout s0 = lay" "layoutNodes s0 = lns"
    using new_NodeAllocation_fields [OF assms(1)] by simp_all
  have f3: "layout s3 = lay" "layoutNodes s3 = lns" "midPoints s3 = midPoints s0"
    using st3 f0 by (simp_all add: static_part_def)
  have wf0: "well_formed s0" using new_NodeAllocation_well_formed [OF assms(1,2)] .
  have wf3: "well_formed s3" using well_formed_static [of s0 s3] st3 wf0 by simp
  from midpoints_Inr [OF p4] obtain pos where
    loop: "for_each (midpoint_step s3 placement) (nodeToPosition s3) (map_values (midPoints s3))
             = Inr pos"
    and s4: "s4 = s3\<lparr>nodeToPosition := pos\<rparr>" by blast
  have d: "distinct (map (\<lambda>l. node_id (node l)) (map_values (midPoints s3)))"
    using well_formed_ids(2) [OF wf3] wf3 by (simp add: well_formed_def wf_maps_def)
  have km: "(k, m) \<in> set (midPoints s3)" using assms(4) f3 by simp
  have root: "map_get (layoutNodes s3) (parentId (node m)) = None" using assms(5) f3 by simp
  from midpoints_root_anchor [OF loop d km root] obtain p where
    p: "map_get pos (node_id (node m)) = Some p" "pos_x p = svgWidth lay / 2"
       "pos_y p = svgDistanceFromEdge lay + ownDiameter (stem m) / 2"
    using f3 by auto
  have a4: "map_get (nodeToPosition s4) (node_id (node m)) = Some p" using p(1) s4 by simp
  have "map_get (nodeToPosition s') (node_id (node m)) = Some p"
  proof (cases "placement = LENGTH_CONSTRAINED")
    case True
    then have c: "constrain2DLeafCoordinates s4 = Inr s'" using p5 by simp
    have wf4: "well_formed s4" using wf3 s4 well_formed_static [of s3 s4] by simp
    have km4: "(k, m) \<in> set (midPoints s4)" using km s4 by simp
    show ?thesis
      using constrain_other [OF c well_formed_midpoint_not_leaf [OF wf4 km4]] a4 by simp
  next
    case False
    then show ?thesis using p5 a4 by simp
  qed
  then show ?thesis using p(2,3) by blast
qed

lemma leafCenter_sum_Nil: "leafCenter_sum [] = Inr (0, 0)"
  by (simp add: leafCenter_sum_def)

lemma midpoint_step_no_leaves:
  assumes "map_get (layoutNodes s) (parentId (node l)) \<noteq> None"
    and "ownLeavesInSubset s (stem l) = []"
  shows "midpoint_step s placement pos l =
           (if parent l = None then Inl TypeError else Inl ValidationError)"
proof -
  obtain pl where pl: "map_get (layoutNodes s) (parentId (node l)) = Some pl"
    using assms(1) by auto
  show ?thesis
    unfolding midpoint_step_def Let_def pl leafPositions_def assms(2)
    by (simp add: leafCenter_sum_Nil and_then_def validateStat_aboveZero split: option.splits)
qed

lemma for_each_Inl:
  assumes "a \<in> set xs" and "\<And>st. \<exists>e. f st a = Inl e"
  shows "\<exists>e. for_each f st xs = Inl e"
  using assms(1)
proof (induction xs arbitrary: st)
  case Nil
  then show ?case by simp
next
  case (Cons x xs)
  show ?case
  proof (cases "f st x")
    case (Inl e)
    then show ?thesis by simp
  next
    case (Inr st1)
    have "x \<noteq> a" using Inr assms(2) [of st] by auto
    then have "a \<in> set xs" using Cons.prems by simp
    then show ?thesis using Cons.IH [of st1] Inr by simp
  qed
qed

lemma process_midpoints_fail:
  assumes "\<And>s3. static_part s3 = static_part s0 \<Longrightarrow>
             \<exists>e. calculate2DMidpointCoordinates placement s3 = Inl e"
  shows "\<exists>e. process placement s0 = Inl e"
proof (cases "process placement s0")
  case (Inl e)
  then show ?thesis by simp
next
  case (Inr s')
  from process_Inr [OF Inr] obtain s1 s2 s3 s4 where
    p1: "convertTotalStemLengthsToUnits s0 = Inr s1" and
    p2: "calculate1DLinearOffsets s1 = Inr s2" and
    p3: "calculate2DLeafCoordinates s2 = Inr s3" and
    p4: "calculate2DMidpointCoordinates placement s3 = Inr s4"
    by blast
  have "static_part s3 = static_part s0"
    using convert_static [OF p1] offsets_static [OF p2] leaf2D_static [OF p3] by simp
  then show ?thesis using assms [of s3] p4 by auto
qed

text \<open>
  Claim C8. Take a midpoint of the allocation whose parent is in the active subset and
  none of whose descendant leaves is. Then the list of leaf positions is empty, the
  validation of its length as a divisor above zero fails, positioning the midpoint
  raises that validation failure (a type error instead when the layout node has no
  parent layout node to read the parent stem from), and the midpoint phase and the
  whole run end with an error instead of a position.
\<close>

theorem midpoint_without_leaves_aborts:
  assumes "(k, m) \<in> set (midPoints s)"
    and "map_get (layoutNodes s) (parentId (node m)) \<noteq> None"
    and "ownLeavesInSubset s (stem m) = []"
  shows "leafPositions s pos (stem m) = [] \<and>
         validateStat (Some (real (length (leafPositions s pos (stem m))))) True = Inl ValidationError \<and>
         midpoint_step s placement pos m =
           (if parent m = None then Inl TypeError else Inl ValidationError) \<and>
         (\<exists>e. calculate2DMidpointCoordinates placement s = Inl e) \<and>
         (\<exists>e. process placement s = Inl e)"
proof -
  have lp: "leafPositions s pos (stem m) = []" using assms(3) by (simp add: leafPositions_def)
  have v: "validateStat (Some (real (length (leafPositions s pos (stem m))))) True =
           Inl ValidationError"
    by (simp add: lp validateStat_aboveZero)
  have step: "\<And>s' pos'. static_part s' = static_part s \<Longrightarrow>
                midpoint_step s' placement pos' m =
                  (if parent m = None then Inl TypeError else Inl ValidationError)"
  proof -
    fix s' :: NodeAllocation and pos' :: "(nat \<times> position) list"
    assume st: "static_part s' = static_part s"
    have "map_get (layoutNodes s') (parentId (node m)) \<noteq> None"
      using assms(2) st by (simp add: static_part_def)
    moreover have "ownLeavesInSubset s' (stem m) = []"
      using assms(3) st by (simp add: static_part_def ownLeavesInSubset_def)
    ultimately show "midpoint_step s' placement pos' m =
                       (if parent m = None then Inl TypeError else Inl ValidationError)"
      using midpoint_step_no_leaves [of s' m placement pos'] by simp
  qed
  have mem: "m \<in> set (map_values (midPoints s))" using assms(1) by (force simp: map_values_def)
  have phase: "\<And>s'. static_part s' = static_part s \<Longrightarrow>
                 \<exists>e. calculate2DMidpointCoordinates placement s' = Inl e"
  proof -
    fix s' :: NodeAllocation
    assume st: "static_part s' = static_part s"
    have mem': "m \<in> set (map_values (midPoints s'))" using mem st by (simp add: static_part_def)
    have "\<exists>e. for_each (midpoint_step s' placement) (nodeToPosition s') (map_values (midPoints s'))
               = Inl e"
      using mem'
    proof (rule for_each_Inl)
      fix a show "\<exists>e. midpoint_step s' placement a m = Inl e" using step [OF st] by simp
    qed
    then show "\<exists>e. calculate2DMidpointCoordinates placement s' = Inl e"
      by (auto simp: calculate2DMidpointCoordinates_def and_then_def)
  qed
  have run: "\<exists>e. process placement s = Inl e"
    using phase by (rule process_midpoints_fail)
  show ?thesis using lp v step [of s pos] phase [of s] run by simp
qed




section \<open>Spider placement\<close>

text \<open>What the spider branch computes for a midpoint whose parent is in the subset:
  the centroid of the leaves plus half of the parent's position.\<close>

lemma midpoint_step_spider:
  assumes "midpoint_step s SPIDER pos l = Inr pos'"
    and "map_get (layoutNodes s) (parentId (node l)) \<noteq> None"
  shows "\<exists>p pp sx sy. map_get pos' (node_id (node l)) = Some p \<and>
           map_get pos (parentId (node l)) = Some pp \<and>
           leafCenter_sum (leafPositions s pos (stem l)) = Inr (sx, sy) \<and>
           pos_x p = sx / real (length (leafPositions s pos (stem l))) + pos_x pp / 2 \<and>
           pos_y p = sy / real (length (leafPositions s pos (stem l))) + pos_y pp / 2"
proof -
  obtain pl where pl: "map_get (layoutNodes s) (parentId (node l)) = Some pl"
    using assms(2) by auto
  show ?thesis
    using assms(1) unfolding midpoint_step_def Let_def pl and_then_def
    by (auto simp: write_xy_Some validateStat_aboveZero map_get_map_set
        split: option.splits sum.splits if_splits)
qed

section \<open>Leaf re-anchoring\<close>


lemma euclidean_scale: "euclidean (t * a) (t * b) = \<bar>t\<bar> * euclidean a b"
proof -
  have "t * a * (t * a) + t * b * (t * b) = t\<^sup>2 * (a * a + b * b)"
    by (simp add: power2_eq_square algebra_simps)
  then show ?thesis by (simp add: euclidean_def real_sqrt_mult)
qed

lemma euclidean_nonneg: "0 \<le> euclidean a b"
  by (simp add: euclidean_def)

lemma pointAtLength_Some:
  assumes "pointAtLength c d = Some pt"
  shows "line_length c \<noteq> 0"
    and "fst pt = x1 c + d / line_length c * (x2 c - x1 c)"
    and "snd pt = y1 c + d / line_length c * (y2 c - y1 c)"
    and "euclidean (fst pt - x1 c) (snd pt - y1 c) = \<bar>d\<bar>"
proof -
  show l: "line_length c \<noteq> 0" and
    px: "fst pt = x1 c + d / line_length c * (x2 c - x1 c)" and
    py: "snd pt = y1 c + d / line_length c * (y2 c - y1 c)"
    using assms by (auto simp: pointAtLength_def js_div_def split: if_splits)
  have pos: "0 < line_length c" using l line_length_nonneg [of c] by simp
  have "euclidean (fst pt - x1 c) (snd pt - y1 c) =
        \<bar>d / line_length c\<bar> * euclidean (x2 c - x1 c) (y2 c - y1 c)"
    unfolding px py using euclidean_scale [of "d / line_length c"] by simp
  also have "\<dots> = \<bar>d\<bar> / line_length c * line_length c"
    using pos by (simp add: line_length_def abs_divide)
  also have "\<dots> = \<bar>d\<bar>" using l by simp
  finally show "euclidean (fst pt - x1 c) (snd pt - y1 c) = \<bar>d\<bar>" .
qed

text \<open>From where and how far a leaf is re-anchored.\<close>

lemma constrain_step_Inr:
  assumes "constrain_step s pos l = Inr pos'"
  shows "\<exists>raw pt. map_get pos (node_id (node l)) = Some raw \<and>
           pointAtLength
             \<lparr>label = [], x1 = fst (anchor_of s pos l), y1 = snd (anchor_of s pos l),
              x2 = pos_x raw, y2 = pos_y raw\<rparr> (anchor_distance l) = Some pt \<and>
           pos' = map_set pos (node_id (node l)) (raw\<lparr>pos_x := fst pt, pos_y := snd pt\<rparr>)"
  using assms unfolding constrain_step_def Let_def anchor_of_def anchor_distance_def
    parentDiameter_of_def
  by (auto split: option.splits dest!: write_xy_Inr)

lemma anchor_of_cong:
  "map_get pos (parentId (node l)) = map_get pos' (parentId (node l)) \<Longrightarrow>
   anchor_of s pos l = anchor_of s pos' l"
  by (simp add: anchor_of_def)

lemma constrain_loop_leaf:
  assumes "for_each (constrain_step s) pos ls = Inr pos'"
    and "distinct (map (\<lambda>l. node_id (node l)) ls)"
    and "l \<in> set ls"
    and "parentId (node l) \<notin> (\<lambda>l. node_id (node l)) ` set ls"
  shows "\<exists>raw pt. map_get pos (node_id (node l)) = Some raw \<and>
           pointAtLength
             \<lparr>label = [], x1 = fst (anchor_of s pos l), y1 = snd (anchor_of s pos l),
              x2 = pos_x raw, y2 = pos_y raw\<rparr> (anchor_distance l) = Some pt \<and>
           map_get pos' (node_id (node l)) = Some (raw\<lparr>pos_x := fst pt, pos_y := snd pt\<rparr>) \<and>
           map_get pos' (parentId (node l)) = map_get pos (parentId (node l))"
proof -
  let ?key = "\<lambda>l. node_id (node l)"
  from assms(3) obtain pre post where sp: "ls = pre @ l # post"
    by (auto simp: in_set_conv_decomp)
  from assms(1) obtain pos1 pos2 where
    a: "for_each (constrain_step s) pos pre = Inr pos1" and
    b: "constrain_step s pos1 l = Inr pos2" and
    c: "for_each (constrain_step s) pos2 post = Inr pos'"
    unfolding sp by (auto simp: for_each_append split: sum.splits)
  have npre: "?key l \<notin> ?key ` set pre" and npost: "?key l \<notin> ?key ` set post"
    using assms(2) unfolding sp by auto
  have ppre: "parentId (node l) \<notin> ?key ` set pre" and ppost: "parentId (node l) \<notin> ?key ` set post"
    and pl: "parentId (node l) \<noteq> ?key l"
    using assms(4) unfolding sp by auto
  have other: "\<And>a x b m. constrain_step s a x = Inr b \<Longrightarrow> m \<noteq> ?key x \<Longrightarrow> map_get b m = map_get a m"
    using constrain_step_other by blast
  have own1: "map_get pos1 (?key l) = map_get pos (?key l)"
    using for_each_other [OF a, of "?key l" ?key] other npre by blast
  have par1: "map_get pos1 (parentId (node l)) = map_get pos (parentId (node l))"
    using for_each_other [OF a, of "parentId (node l)" ?key] other ppre by blast
  from constrain_step_Inr [OF b] obtain raw pt where
    r: "map_get pos1 (?key l) = Some raw" and
    pt: "pointAtLength
             \<lparr>label = [], x1 = fst (anchor_of s pos1 l), y1 = snd (anchor_of s pos1 l),
              x2 = pos_x raw, y2 = pos_y raw\<rparr> (anchor_distance l) = Some pt" and
    p2: "pos2 = map_set pos1 (?key l) (raw\<lparr>pos_x := fst pt, pos_y := snd pt\<rparr>)"
    by blast
  have an: "anchor_of s pos1 l = anchor_of s pos l" using anchor_of_cong [OF par1] .
  have own2: "map_get pos2 (?key l) = Some (raw\<lparr>pos_x := fst pt, pos_y := snd pt\<rparr>)"
    by (simp add: p2 map_get_map_set)
  have par2: "map_get pos2 (parentId (node l)) = map_get pos1 (parentId (node l))"
    using pl by (simp add: p2 map_get_map_set)
  have own': "map_get pos' (?key l) = map_get pos2 (?key l)"
    using for_each_other [OF c, of "?key l" ?key] other npost by blast
  have par': "map_get pos' (parentId (node l)) = map_get pos2 (parentId (node l))"
    using for_each_other [OF c, of "parentId (node l)" ?key] other ppost by blast
  have f1: "map_get pos (?key l) = Some raw" using r own1 by simp
  have f2: "pointAtLength
             \<lparr>label = [], x1 = fst (anchor_of s pos l), y1 = snd (anchor_of s pos l),
              x2 = pos_x raw, y2 = pos_y raw\<rparr> (anchor_distance l) = Some pt"
    using pt an by simp
  have f3: "map_get pos' (?key l) = Some (raw\<lparr>pos_x := fst pt, pos_y := snd pt\<rparr>)"
    using own' own2 by simp
  have f4: "map_get pos' (parentId (node l)) = map_get pos (parentId (node l))"
    using par' par2 par1 by simp
  show ?thesis using f1 f2 f3 f4 by blast
qed



lemma anchor_of_static:
  "layout s = layout s' \<Longrightarrow>
   map_get pos (parentId (node l)) = map_get pos' (parentId (node l)) \<Longrightarrow>
   anchor_of s pos l = anchor_of s' pos' l"
  by (simp add: anchor_of_def getRootPosition_def split: option.splits)

text \<open>
  Claim C4. In length-constrained mode, take the allocation after the 2D leaf phase, run
  the midpoint phase and then the leaf re-anchoring. For every leaf whose parent is not
  itself a leaf, the re-anchoring leaves the parent's position as the midpoint phase
  set it, and the leaf ends on the line from the anchor (the parent's final position,
  or the synthetic root position when the parent has no position) through the leaf's
  position after the 2D leaf phase: anchor plus \<open>d / len\<close> times the vector from the
  anchor to that raw position, where \<open>d\<close> is parent radius plus scaled edge length plus
  own radius and \<open>len\<close> the nonzero distance from the anchor to the raw position. Its
  distance from the anchor is the absolute value of \<open>d\<close>, so exactly \<open>d\<close> for the
  nonnegative lengths of a stem.
\<close>

theorem leaf_reanchored:
  assumes "calculate2DMidpointCoordinates LENGTH_CONSTRAINED s3 = Inr s4"
    and "constrain2DLeafCoordinates s4 = Inr s5"
    and "well_formed s3"
    and "(k, l) \<in> set (leaves s3)"
    and "map_get (leaves s3) (parentId (node l)) = None"
  shows "\<exists>raw final.
           map_get (nodeToPosition s3) (node_id (node l)) = Some raw \<and>
           map_get (nodeToPosition s5) (node_id (node l)) = Some final \<and>
           map_get (nodeToPosition s5) (parentId (node l)) =
             map_get (nodeToPosition s4) (parentId (node l)) \<and>
           (let P = anchor_of s5 (nodeToPosition s5) l;
                d = anchor_distance l;
                len = euclidean (pos_x raw - fst P) (pos_y raw - snd P)
            in len \<noteq> 0 \<and>
               pos_x final = fst P + d / len * (pos_x raw - fst P) \<and>
               pos_y final = snd P + d / len * (pos_y raw - snd P) \<and>
               euclidean (pos_x final - fst P) (pos_y final - snd P) = \<bar>d\<bar>)"
proof -
  let ?key = "\<lambda>l. node_id (node l)"
  from midpoints_Inr [OF assms(1)] obtain pos4 where
    loop4: "for_each (midpoint_step s3 LENGTH_CONSTRAINED) (nodeToPosition s3)
              (map_values (midPoints s3)) = Inr pos4"
    and s4: "s4 = s3\<lparr>nodeToPosition := pos4\<rparr>" by blast
  from constrain_Inr [OF assms(2)] obtain pos5 where
    loop5: "for_each (constrain_step s4) (nodeToPosition s4) (map_values (leaves s4)) = Inr pos5"
    and s5: "s5 = s4\<lparr>nodeToPosition := pos5\<rparr>" by blast
  have ids: "map ?key (map_values (leaves s3)) = map fst (leaves s3)"
    "map ?key (map_values (midPoints s3)) = map fst (midPoints s3)"
    using well_formed_ids [OF assms(3)] by simp_all
  have kl: "?key l = k"
    using assms(3,4) by (auto simp: well_formed_def wf_maps_def list_all_iff)
  have "k \<in> fst ` set (leaves s3)" using assms(4) by force
  then have "k \<notin> fst ` set (midPoints s3)"
    using assms(3) by (auto simp: well_formed_def wf_maps_def)
  then have nm: "?key l \<notin> ?key ` set (map_values (midPoints s3))"
    using ids(2) kl by (metis list.set_map)
  have raw4: "map_get pos4 (?key l) = map_get (nodeToPosition s3) (?key l)"
    using for_each_other [OF loop4, of "?key l" ?key] midpoint_step_other nm by blast
  have lv4: "leaves s4 = leaves s3" by (simp add: s4)
  have d: "distinct (map ?key (map_values (leaves s4)))"
    using assms(3) ids(1) lv4 by (simp add: well_formed_def wf_maps_def)
  have mem: "l \<in> set (map_values (leaves s4))"
    using assms(4) lv4 by (force simp: map_values_def)
  have "parentId (node l) \<notin> fst ` set (leaves s3)"
    using assms(5) by (simp add: map_get_None_iff)
  then have np: "parentId (node l) \<notin> ?key ` set (map_values (leaves s4))"
    using ids(1) lv4 by (metis list.set_map)
  from constrain_loop_leaf [OF loop5 d mem np] obtain raw pt where
    r: "map_get (nodeToPosition s4) (?key l) = Some raw" and
    pt: "pointAtLength
           \<lparr>label = [], x1 = fst (anchor_of s4 (nodeToPosition s4) l),
            y1 = snd (anchor_of s4 (nodeToPosition s4) l),
            x2 = pos_x raw, y2 = pos_y raw\<rparr> (anchor_distance l) = Some pt" and
    f: "map_get pos5 (?key l) = Some (raw\<lparr>pos_x := fst pt, pos_y := snd pt\<rparr>)" and
    par: "map_get pos5 (parentId (node l)) = map_get (nodeToPosition s4) (parentId (node l))"
    by blast
  have an: "anchor_of s5 (nodeToPosition s5) l = anchor_of s4 (nodeToPosition s4) l"
    by (rule anchor_of_static) (simp_all add: s5 par)
  have r3: "map_get (nodeToPosition s3) (?key l) = Some raw" using r raw4 by (simp add: s4)
  have f5: "map_get (nodeToPosition s5) (?key l) = Some (raw\<lparr>pos_x := fst pt, pos_y := snd pt\<rparr>)"
    using f by (simp add: s5)
  have p5: "map_get (nodeToPosition s5) (parentId (node l)) =
            map_get (nodeToPosition s4) (parentId (node l))"
    using par by (simp add: s5)
  let ?P = "anchor_of s4 (nodeToPosition s4) l"
  let ?len = "euclidean (pos_x raw - fst ?P) (pos_y raw - snd ?P)"
  have g1: "?len \<noteq> 0" using pointAtLength_Some(1) [OF pt] by (simp add: line_length_def)
  have g2: "fst pt = fst ?P + anchor_distance l / ?len * (pos_x raw - fst ?P)"
    using pointAtLength_Some(2) [OF pt] by (simp add: line_length_def)
  have g3: "snd pt = snd ?P + anchor_distance l / ?len * (pos_y raw - snd ?P)"
    using pointAtLength_Some(3) [OF pt] by (simp add: line_length_def)
  have g4: "euclidean (fst pt - fst ?P) (snd pt - snd ?P) = \<bar>anchor_distance l\<bar>"
    using pointAtLength_Some(4) [OF pt] by simp
  define final where "final = raw\<lparr>pos_x := fst pt, pos_y := snd pt\<rparr>"
  have fx: "pos_x final = fst pt" and fy: "pos_y final = snd pt" by (simp_all add: final_def)
  have h2: "pos_x final = fst ?P + anchor_distance l / ?len * (pos_x raw - fst ?P)"
    by (rule trans [OF fx g2])
  have h3: "pos_y final = snd ?P + anchor_distance l / ?len * (pos_y raw - snd ?P)"
    by (rule trans [OF fy g3])
  have h4: "euclidean (pos_x final - fst ?P) (pos_y final - snd ?P) = \<bar>anchor_distance l\<bar>"
    unfolding fx fy by (rule g4)
  have geo: "(let P = anchor_of s5 (nodeToPosition s5) l;
                d = anchor_distance l;
                len = euclidean (pos_x raw - fst P) (pos_y raw - snd P)
            in len \<noteq> 0 \<and>
               pos_x final = fst P + d / len * (pos_x raw - fst P) \<and>
               pos_y final = snd P + d / len * (pos_y raw - snd P) \<and>
               euclidean (pos_x final - fst P) (pos_y final - snd P) = \<bar>d\<bar>)"
    unfolding an Let_def using g1 h2 h3 h4 by blast
  have f5': "map_get (nodeToPosition s5) (?key l) = Some final" using f5 by (simp add: final_def)
  show ?thesis using r3 f5' p5 geo by blast
qed



section \<open>Scale\<close>

text \<open>
  Claim C7. For every \<open>n\<close> (in particular every \<open>n \<ge> 0\<close>) and every scale factor, the
  line length is \<open>n\<close> times the scale factor and the circle radius is the line length
  divided by \<open>2\<pi>\<close>: the line length is the circumference of the circle.
\<close>

theorem scale_queries:
  "getLineLength scaleFactor n = n * scaleFactor \<and>
   getCircleRadius scaleFactor n = getLineLength scaleFactor n / (2 * pi) \<and>
   getCircleRadius scaleFactor n = (n * scaleFactor) / (2 * pi) \<and>
   2 * pi * getCircleRadius scaleFactor n = getLineLength scaleFactor n"
  by (simp add: getLineLength_def getCircleRadius_def)



section \<open>The hierarchy of clumps\<close>


lemma map_get_in_distinct: "distinct (map fst m) \<Longrightarrow> (k, v) \<in> set m \<Longrightarrow> map_get m k = Some v"
  by (simp add: map_get_def)


lemma map_get_put:
  "map_get (put_clump H d k c) d' =
     (if d' = d then map_option (\<lambda>lv. lv\<lparr>clumps := map_set (clumps lv) k c\<rparr>) (map_get H d)
      else map_get H d')"
  by (auto simp: put_clump_def map_get_map_set split: option.splits)

lemma map_get_update:
  "map_get (update_clump H d k f) d' =
     (if d' = d
      then map_option (\<lambda>lv. (case map_get (clumps lv) k of
                                None \<Rightarrow> lv
                              | Some c \<Rightarrow> lv\<lparr>clumps := map_set (clumps lv) k (f c)\<rparr>))
             (map_get H d)
      else map_get H d')"
  by (auto simp: update_clump_def lookup_clump_def map_get_put split: option.splits)












section \<open>The unit conversion of one level\<close>









lemma strip_set_units [simp]: "strip (a\<lparr>clump_units := u\<rparr>) = strip a"
  by (simp add: strip_def)












section \<open>Building the hierarchy\<close>


lemma map_get_link:
  "map_get (link_clump H d k pk len) d' = None \<longleftrightarrow> map_get H d' = None"
  by (auto simp: link_clump_def map_get_put map_get_update)






































section \<open>Sibling clumps share their parent's units\<close>











section \<open>The example layouts, evaluated\<close>


lemma example_perimeter:
  assumes "svgWidth lay = 1000" and "svgDistanceFromEdge lay = 30" and "finalSvgHeight lay = 1000"
    and "largestRootDiameter rts \<le> 200"
  shows "lay_out 0 (projr (threeSided lay rts)) = example_segments \<and>
         sum_list (map line_length (projr (threeSided lay rts))) = 2420"
  using assms
  by (simp add: threeSided_eq topOffset_def new_LinearSpaceSegment_def line_length_vertical
      line_length_horizontal example_segments_def max_def)

lemma example_new: "new_NodeAllocation example_layout example_layoutNodes = Inr example_s0"
proof -
  have c: "categorize ([], [], []) (map_values example_layoutNodes) =
           (nodeToPosition example_s0, leaves example_s0, midPoints example_s0)"
    by code_simp
  have r: "collect_roots (midPoints example_s0) [] (map_values (midPoints example_s0)) =
           roots example_s0"
    by code_simp
  have d: "largestRootDiameter (roots example_s0) \<le> 200" by code_simp
  have p: "lay_out 0 (projr (threeSided example_layout (roots example_s0))) = example_segments \<and>
         sum_list (map line_length (projr (threeSided example_layout (roots example_s0)))) = 2420"
    by (rule example_perimeter [OF _ _ _ d]) (simp_all add: example_layout_def)
  show ?thesis
    unfolding new_NodeAllocation_eq c by (simp add: r p) (simp add: example_s0_def)
qed

lemma boundary_new: "new_NodeAllocation boundary_layout boundary_layoutNodes = Inr boundary_s0"
proof -
  have c: "categorize ([], [], []) (map_values boundary_layoutNodes) =
           (nodeToPosition boundary_s0, leaves boundary_s0, midPoints boundary_s0)"
    by code_simp
  have r: "collect_roots (midPoints boundary_s0) [] (map_values (midPoints boundary_s0)) =
           roots boundary_s0"
    by code_simp
  have d: "largestRootDiameter (roots boundary_s0) \<le> 200" by code_simp
  have p: "lay_out 0 (projr (threeSided boundary_layout (roots boundary_s0))) = example_segments \<and>
         sum_list (map line_length (projr (threeSided boundary_layout (roots boundary_s0)))) = 2420"
    by (rule example_perimeter [OF _ _ _ d]) (simp_all add: boundary_layout_def)
  show ?thesis
    unfolding new_NodeAllocation_eq c by (simp add: r p) (simp add: boundary_s0_def)
qed

lemma example_convert: "convertTotalStemLengthsToUnits example_s0 = Inr example_s1"
  by code_simp

lemma boundary_convert: "convertTotalStemLengthsToUnits boundary_s0 = Inr boundary_s1"
  by code_simp

lemma example_offsets: "calculate1DLinearOffsets example_s1 = Inr example_s2"
  by code_simp




lemma example_process_spider: "process SPIDER example_s0 = Inr example_spider"
  by code_simp

lemma orphan_new: "new_NodeAllocation example_layout orphan_layoutNodes = Inr orphan_s0"
  by code_simp



section \<open>The 1D-offset phase under a permuted display order\<close>

lemma permuted_new: "new_NodeAllocation permuted_layout example_layoutNodes = Inr permuted_s0"
proof -
  have c: "categorize ([], [], []) (map_values example_layoutNodes) =
           (nodeToPosition permuted_s0, leaves permuted_s0, midPoints permuted_s0)"
    by code_simp
  have r: "collect_roots (midPoints permuted_s0) [] (map_values (midPoints permuted_s0)) =
           roots permuted_s0"
    by code_simp
  have d: "largestRootDiameter (roots permuted_s0) \<le> 200" by code_simp
  have p: "lay_out 0 (projr (threeSided permuted_layout (roots permuted_s0))) = example_segments \<and>
         sum_list (map line_length (projr (threeSided permuted_layout (roots permuted_s0)))) = 2420"
    by (rule example_perimeter [OF _ _ _ d]) (simp_all add: permuted_layout_def)
  show ?thesis
    unfolding new_NodeAllocation_eq c by (simp add: r p) (simp add: permuted_s0_def example_s0_def)
qed

lemma permuted_convert: "convertTotalStemLengthsToUnits permuted_s0 = Inr permuted_s1"
  by code_simp

lemma permuted_offsets: "calculate1DLinearOffsets permuted_s1 = Inr permuted_s2"
  by code_simp

theorem calculate1DLinearOffsets_blocks_witness:
  "new_NodeAllocation permuted_layout example_layoutNodes = Inr permuted_s0 \<and>
   convertTotalStemLengthsToUnits permuted_s0 = Inr permuted_s1 \<and>
   calculate1DLinearOffsets permuted_s1 = Inr permuted_s2 \<and>
   distinct (map (\<lambda>l. node_id (node l)) (map_values (leaves permuted_s1))) \<and>
   (1::nat) < length (arrangedLeaves permuted_s1) \<and>
   map (\<lambda>l. node_id (node l)) (map_values (leaves permuted_s1)) = [2, 4, 5] \<and>
   order (layout permuted_s1) = [5, 2, 4] \<and>
   map (\<lambda>l. node_id (node l)) (arrangedLeaves permuted_s1) = [5, 2, 4] \<and>
   (\<exists>p. map_get (nodeToPosition permuted_s2) 2 = Some p \<and> offset p = Some (10648 / 7)) \<and>
   (\<exists>k < length (segments permuted_s2).
      \<lparr>block_node = 2, block_begin = 9801 / 7, block_end = 11495 / 7, center = 10648 / 7\<rparr>
        \<in> set (blocks (segments permuted_s2 ! k)) \<and>
      seg_begin (segments permuted_s2 ! k) < 10648 / 7 \<and>
      10648 / 7 < seg_end (segments permuted_s2 ! k))"
proof -
  let ?ids = "map (\<lambda>l. node_id (node l)) (map_values (leaves permuted_s1))"
  let ?D = "\<lparr>block_node = 2, block_begin = 9801 / 7, block_end = 11495 / 7,
             center = 10648 / 7\<rparr>"
  have h1: "calculate1DLinearOffsets permuted_s1 = Inr permuted_s2" by (rule permuted_offsets)
  have h2: "distinct ?ids" by code_simp
  have h3: "(1::nat) < length (arrangedLeaves permuted_s1)" by code_simp
  have l0: "?ids = [2, 4, 5]" by code_simp
  have o: "order (layout permuted_s1) = [5, 2, 4]" by code_simp
  have l1: "node_id (node (arrangedLeaves permuted_s1 ! 1)) = 2" by code_simp
  have c: "block_chain (seg_begin (segments permuted_s1 ! 0)) (total1DSpaceAvailable permuted_s1)
             (leaf_units (nodeToPosition permuted_s1) (arrangedLeaves permuted_s1)) ! 1 = ?D"
    by code_simp
  note T = calculate1DLinearOffsets_blocks [OF h1 h2 h3]
  note inorder = T [THEN conjunct2, THEN conjunct2, THEN conjunct2, THEN conjunct1,
                    unfolded o l0]
  have v: "map (\<lambda>l. node_id (node l)) (arrangedLeaves permuted_s1) = [5, 2, 4]"
    using inorder by simp
  note R = T [THEN conjunct2, THEN conjunct2, THEN conjunct2, THEN conjunct2,
              unfolded Let_def c l1]
  have a: "\<exists>p. map_get (nodeToPosition permuted_s2) 2 = Some p \<and> offset p = Some (10648 / 7)"
    using R by simp
  have b: "\<exists>k < length (segments permuted_s2).
      ?D \<in> set (blocks (segments permuted_s2 ! k)) \<and>
      seg_begin (segments permuted_s2 ! k) < 10648 / 7 \<and>
      10648 / 7 < seg_end (segments permuted_s2 ! k)"
    using R by auto
  show ?thesis using permuted_new permuted_convert h1 h2 h3 l0 o v a b by blast
qed
theorem boundary_center_aborts_witness:
  "new_NodeAllocation boundary_layout boundary_layoutNodes = Inr boundary_s0 \<and>
   convertTotalStemLengthsToUnits boundary_s0 = Inr boundary_s1 \<and>
   next_block (boundary_s1, Some 0, None) boundary_node2 =
     Inr \<lparr>block_node = 2, block_begin = 0, block_end = 1480, center = 740\<rparr> \<and>
   seg_end (segments boundary_s1 ! 0) = 740 \<and>
   calculate1DLinearOffsets boundary_s1 = Inl TypeError \<and>
   process LENGTH_CONSTRAINED boundary_s0 = Inl TypeError \<and>
   new_NodeAllocation example_layout example_layoutNodes = Inr example_s0 \<and>
   convertTotalStemLengthsToUnits example_s0 = Inr example_s1 \<and>
   next_block (example_s1, Some 0, None) example_node2 =
     Inr \<lparr>block_node = 2, block_begin = 0, block_end = 242, center = 121\<rparr> \<and>
   seg_begin (segments example_s1 ! 0) < 121 \<and> 121 < seg_end (segments example_s1 ! 0) \<and>
   \<not> contains1DPoint (segments example_s1 ! 1) 121 \<and>
   (\<exists>st. offsets_step (example_s1, Some 0, None) example_node2 = Inr (st, Some 0,
      Some \<lparr>block_node = 2, block_begin = 0, block_end = 242, center = 121\<rparr>)) \<and>
   (\<exists>st'. offsets_step (example_s1, Some 0, None) example_node2 = Inr st' \<and>
      blocks (segments (fst st') ! 0) =
        blocks (segments example_s1 ! 0) @
          [\<lparr>block_node = 2, block_begin = 0, block_end = 242, center = 121\<rparr>]) \<and>
   blocks (segments example_s1 ! 0) = [] \<and>
   calculate1DLinearOffsets example_s1 = Inr example_s2 \<and>
   \<lparr>block_node = 2, block_begin = 0, block_end = 242, center = 121\<rparr>
     \<in> set (blocks (segments example_s2 ! 0))"
proof -
  let ?B = "\<lparr>block_node = 2, block_begin = 0, block_end = 1480, center = 740\<rparr>"
  let ?C = "\<lparr>block_node = 2, block_begin = 0, block_end = 242, center = 121\<rparr>"
  have b3: "arrangedLeaves boundary_s1 = [] @ boundary_node2 # [boundary_node3]" by code_simp
  have b4: "for_each offsets_step
              (boundary_s1, (if segments boundary_s1 = [] then None else Some 0), None) [] =
            Inr (boundary_s1, Some 0, None)" by code_simp
  have b5: "next_block (boundary_s1, Some 0, None) boundary_node2 = Inr ?B" by code_simp
  have b6: "seg_end (segments boundary_s1 ! 0) = 740" by code_simp
  have b7: "(0::nat) < length (segments boundary_s1)" by code_simp
  note T = boundary_center_aborts [OF boundary_new boundary_convert b3 b4 b5]
  have ex: "\<exists>k < length (segments boundary_s1).
          center ?B = seg_begin (segments boundary_s1 ! k) \<or>
          center ?B = seg_end (segments boundary_s1 ! k)"
    using b6 b7 by auto
  note F = T [THEN conjunct2, THEN mp, OF ex]
  have fail: "calculate1DLinearOffsets boundary_s1 = Inl TypeError \<and>
              process LENGTH_CONSTRAINED boundary_s0 = Inl TypeError"
    using F by blast
  have e3: "arrangedLeaves example_s1 = [] @ example_node2 # [example_node4, example_node5]"
    by code_simp
  have e4: "for_each offsets_step
              (example_s1, (if segments example_s1 = [] then None else Some 0), None) [] =
            Inr (example_s1, Some 0, None)" by code_simp
  have e5: "next_block (example_s1, Some 0, None) example_node2 = Inr ?C" by code_simp
  have e6: "seg_begin (segments example_s1 ! 0) < 121 \<and> 121 < seg_end (segments example_s1 ! 0)"
    by code_simp
  have e7: "(0::nat) < length (segments example_s1)" "(1::nat) < length (segments example_s1)"
    by code_simp+
  note U = boundary_center_aborts [OF example_new example_convert e3 e4 e5]
  have p0: "seg_begin (segments example_s1 ! 0) < center ?C \<and>
            center ?C < seg_end (segments example_s1 ! 0)"
    using e6 by simp
  note Q = U [THEN conjunct1, rule_format, OF e7(1) p0, unfolded fst_conv]
  have q1: "\<forall>j < length (segments example_s1). j \<noteq> 0 \<longrightarrow>
              \<not> contains1DPoint (segments example_s1 ! j) (center ?C)"
    using Q by (rule conjunct1)
  have q2: "offsets_step (example_s1, Some 0, None) example_node2 =
          Inr (example_s1\<lparr>nodeToPosition :=
                 set_offset (nodeToPosition example_s1) (block_node ?C) (center ?C),
               segments := push_block (segments example_s1) 0 ?C\<rparr>,
               Some 0, Some ?C)"
    using Q by blast
  have q3: "\<exists>st'. offsets_step (example_s1, Some 0, None) example_node2 = Inr st' \<and>
           length (segments (fst st')) = length (segments example_s1) \<and>
           blocks (segments (fst st') ! 0) =
             blocks (segments example_s1 ! 0) @ [?C] \<and>
           ?C \<in> set (blocks (segments (fst st') ! 0)) \<and>
           (\<forall>j < length (segments example_s1). j \<noteq> 0 \<longrightarrow>
              blocks (segments (fst st') ! j) =
              blocks (segments example_s1 ! j))"
    using Q by blast
  have q4: "\<forall>s'. calculate1DLinearOffsets example_s1 = Inr s' \<longrightarrow>
           0 < length (segments s') \<and>
           ?C \<in> set (blocks (segments s' ! 0)) \<and>
           seg_begin (segments s' ! 0) < center ?C \<and> center ?C < seg_end (segments s' ! 0)"
    using Q by blast
  have u: "\<exists>st. offsets_step (example_s1, Some 0, None) example_node2 = Inr (st, Some 0, Some ?C)"
    using q2 by blast
  have n1: "\<not> contains1DPoint (segments example_s1 ! 1) 121"
    using q1 [rule_format, OF e7(2)] by simp
  from q3 obtain st' where
    st1: "offsets_step (example_s1, Some 0, None) example_node2 = Inr st'" and
    st2: "blocks (segments (fst st') ! 0) = blocks (segments example_s1 ! 0) @ [?C]"
    by blast
  have v: "\<exists>st'. offsets_step (example_s1, Some 0, None) example_node2 = Inr st' \<and>
      blocks (segments (fst st') ! 0) = blocks (segments example_s1 ! 0) @ [?C]"
    using st1 st2 by blast
  have e8: "blocks (segments example_s1 ! 0) = []" by code_simp
  have w: "?C \<in> set (blocks (segments example_s2 ! 0))"
    using q4 [rule_format, OF example_offsets] by (rule conjunct1 [OF conjunct2])
  show ?thesis
    using boundary_new boundary_convert b5 b6 fail example_new example_convert e5 e6 n1 u v e8
      example_offsets w
    by blast
qed
theorem root_midpoint_anchor_witness:
  "new_NodeAllocation example_layout example_layoutNodes = Inr example_s0 \<and>
   distinct (map (\<lambda>l. node_id (node l)) (map_values example_layoutNodes)) \<and>
   process SPIDER example_s0 = Inr example_spider \<and>
   (1, example_node1) \<in> set (midPoints example_s0) \<and>
   map_get example_layoutNodes (parentId (node example_node1)) = None \<and>
   (\<exists>p. map_get (nodeToPosition example_spider) 1 = Some p \<and> pos_x p = 500 \<and> pos_y p = 40)"
proof -
  have h2: "distinct (map (\<lambda>l. node_id (node l)) (map_values example_layoutNodes))"
    by code_simp
  have h4: "(1, example_node1) \<in> set (midPoints example_s0)" by (simp add: example_s0_def)
  have h5: "map_get example_layoutNodes (parentId (node example_node1)) = None" by code_simp
  have e: "node_id (node example_node1) = 1" "svgWidth example_layout / 2 = 500"
    "svgDistanceFromEdge example_layout + ownDiameter (stem example_node1) / 2 = 40"
    by code_simp+
  have "\<exists>p. map_get (nodeToPosition example_spider) 1 = Some p \<and> pos_x p = 500 \<and> pos_y p = 40"
    using root_midpoint_anchor [OF example_new h2 example_process_spider h4 h5] unfolding e .
  then show ?thesis using example_new h2 example_process_spider h4 h5 by blast
qed

theorem midpoint_without_leaves_aborts_witness:
  "(2, orphan_node2) \<in> set (midPoints orphan_s0) \<and>
   map_get (layoutNodes orphan_s0) (parentId (node orphan_node2)) \<noteq> None \<and>
   ownLeavesInSubset orphan_s0 (stem orphan_node2) = [] \<and>
   midpoint_step orphan_s0 LENGTH_CONSTRAINED (nodeToPosition orphan_s0) orphan_node2 =
     Inl ValidationError \<and>
   (\<exists>e. calculate2DMidpointCoordinates LENGTH_CONSTRAINED orphan_s0 = Inl e) \<and>
   process LENGTH_CONSTRAINED orphan_s0 = Inl ValidationError \<and>
   process SPIDER orphan_s0 = Inl ValidationError"
proof -
  have h1: "(2, orphan_node2) \<in> set (midPoints orphan_s0)" by (simp add: orphan_s0_def)
  have h2: "map_get (layoutNodes orphan_s0) (parentId (node orphan_node2)) \<noteq> None"
    by code_simp
  have h3: "ownLeavesInSubset orphan_s0 (stem orphan_node2) = []" by code_simp
  have p: "parent orphan_node2 \<noteq> None" by code_simp
  note T = midpoint_without_leaves_aborts [OF h1 h2 h3, of "nodeToPosition orphan_s0"
      LENGTH_CONSTRAINED]
  have a: "midpoint_step orphan_s0 LENGTH_CONSTRAINED (nodeToPosition orphan_s0) orphan_node2 =
           Inl ValidationError"
    using T p by simp
  have b: "\<exists>e. calculate2DMidpointCoordinates LENGTH_CONSTRAINED orphan_s0 = Inl e"
    using T by blast
  have c: "process LENGTH_CONSTRAINED orphan_s0 = Inl ValidationError" by code_simp
  have d: "process SPIDER orphan_s0 = Inl ValidationError" by code_simp
  show ?thesis using h1 h2 h3 a b c d by blast
qed

text \<open>
  Claim C2, evaluated on the example layout in spider mode. The root 1 is at (500, 40),
  the leaves 4 and 5 of the midpoint 3 are at (30, 12053/14) and (970, 13021/14), so
  their centroid is (500, 12537/14). The run puts the midpoint 3 at (750, 1831/2): the
  centroid plus half of the parent's position, which is not the average of the centroid
  and the parent's position, (500, 6548.5/14).
\<close>

theorem spider_adds_half_parent:
  "process SPIDER example_s0 = Inr example_spider \<and>
   map_get (nodeToPosition example_spider) 1 =
     Some \<lparr>units = 1, offset = None, pos_x = 500, pos_y = 40\<rparr> \<and>
   map_get (nodeToPosition example_spider) 4 =
     Some \<lparr>units = 9 / 28, offset = Some (8833 / 14), pos_x = 30, pos_y = 12053 / 14\<rparr> \<and>
   map_get (nodeToPosition example_spider) 5 =
     Some \<lparr>units = 81 / 140, offset = Some (24079 / 14), pos_x = 970, pos_y = 13021 / 14\<rparr> \<and>
   map_get (nodeToPosition example_spider) 3 =
     Some \<lparr>units = 9 / 10, offset = None, pos_x = 750, pos_y = 1831 / 2\<rparr> \<and>
   (750 :: real) = (30 + 970) / 2 + 500 / 2 \<and>
   (750 :: real) \<noteq> ((30 + 970) / 2 + 500) / 2 \<and>
   (1831 / 2 :: real) = (12053 / 14 + 13021 / 14) / 2 + 40 / 2 \<and>
   (1831 / 2 :: real) \<noteq> ((12053 / 14 + 13021 / 14) / 2 + 40) / 2"
proof -
  have a: "map_get (nodeToPosition example_spider) 1 =
     Some \<lparr>units = 1, offset = None, pos_x = 500, pos_y = 40\<rparr>" by code_simp
  have b: "map_get (nodeToPosition example_spider) 4 =
     Some \<lparr>units = 9 / 28, offset = Some (8833 / 14), pos_x = 30, pos_y = 12053 / 14\<rparr>"
    by code_simp
  have c: "map_get (nodeToPosition example_spider) 5 =
     Some \<lparr>units = 81 / 140, offset = Some (24079 / 14), pos_x = 970, pos_y = 13021 / 14\<rparr>"
    by code_simp
  have d: "map_get (nodeToPosition example_spider) 3 =
     Some \<lparr>units = 9 / 10, offset = None, pos_x = 750, pos_y = 1831 / 2\<rparr>" by code_simp
  show ?thesis using example_process_spider a b c d by simp
qed



theorem leaf_reanchored_witness:
  "calculate2DMidpointCoordinates LENGTH_CONSTRAINED single_s3 = Inr single_s4 \<and>
   constrain2DLeafCoordinates single_s4 = Inr single_s5 \<and>
   well_formed single_s3 \<and>
   (2, single_node2) \<in> set (leaves single_s3) \<and>
   map_get (leaves single_s3) (parentId (node single_node2)) = None \<and>
   map_option (\<lambda>p. (pos_x p, pos_y p)) (map_get (nodeToPosition single_s3) 2) = Some (500, 970) \<and>
   map_option (\<lambda>p. (pos_x p, pos_y p)) (map_get (nodeToPosition single_s5) 2) = Some (500, 95) \<and>
   anchor_of single_s5 (nodeToPosition single_s5) single_node2 = (500, 40) \<and>
   anchor_distance single_node2 = 55 \<and>
   euclidean (500 - 500) (95 - 40) = 55"
proof -
  have h1: "calculate2DMidpointCoordinates LENGTH_CONSTRAINED single_s3 = Inr single_s4"
    by code_simp
  have h2: "constrain2DLeafCoordinates single_s4 = Inr single_s5" by code_simp
  have h3: "well_formed single_s3" by code_simp
  have h4: "(2, single_node2) \<in> set (leaves single_s3)" by code_simp
  have h5: "map_get (leaves single_s3) (parentId (node single_node2)) = None" by code_simp
  have e1: "map_option (\<lambda>p. (pos_x p, pos_y p)) (map_get (nodeToPosition single_s3) 2) =
            Some (500, 970)" by code_simp
  have e2: "map_option (\<lambda>p. (pos_x p, pos_y p)) (map_get (nodeToPosition single_s5) 2) =
            Some (500, 95)" by code_simp
  have e3: "anchor_of single_s5 (nodeToPosition single_s5) single_node2 = (500, 40)" by code_simp
  have e4: "anchor_distance single_node2 = 55" by code_simp
  have e5: "node_id (node single_node2) = 2" by code_simp
  from leaf_reanchored [OF h1 h2 h3 h4 h5] obtain raw final where
    r: "map_get (nodeToPosition single_s3) 2 = Some raw" and
    f: "map_get (nodeToPosition single_s5) 2 = Some final" and
    g: "euclidean (pos_x final - 500) (pos_y final - 40) = \<bar>55\<bar>"
    unfolding Let_def e3 e4 e5 by auto
  have "pos_x final = 500" "pos_y final = 95" using e2 f by simp_all
  then have "euclidean (500 - 500) (95 - 40) = 55" using g by simp
  then show ?thesis using h1 h2 h3 h4 h5 e1 e2 e3 e4 by blast
qed

section \<open>Sibling units on the example layout\<close>



end
